theory Spec2Isabelle
  imports Complex_Main "HOL-Library.Word"
begin

unbundle bit_operations_syntax

chapter \<open>Address generation and port scanning pipeline\<close>

section \<open>Machine integers and strings\<close>

type_synonym u8 = "8 word"
type_synonym u32 = "32 word"

text \<open>
  Go's \<open>int\<close> is 64 bits wide on the platforms the services are built for.  Values are
  kept as mathematical integers and every operation that can leave the 64-bit range is
  wrapped explicitly; \<open>/\<close> and \<open>%\<close> truncate towards zero.
\<close>

definition wrap64 :: "int \<Rightarrow> int" where
  "wrap64 x = (x + 2 ^ 63) mod 2 ^ 64 - 2 ^ 63"

definition go_quot :: "int \<Rightarrow> int \<Rightarrow> int" where
  "go_quot a b = sgn a * sgn b * (\<bar>a\<bar> div \<bar>b\<bar>)"

definition go_rem :: "int \<Rightarrow> int \<Rightarrow> int" where
  "go_rem a b = a - b * go_quot a b"

text \<open>Decimal rendering of a non-negative number, as \<open>%d\<close> and \<open>IP.String\<close> print it.\<close>

definition digit_char :: "nat \<Rightarrow> char" where
  "digit_char n = char_of (48 + n)"

fun itoa :: "nat \<Rightarrow> string" where
  "itoa n = (if n < 10 then [digit_char n] else itoa (n div 10) @ [digit_char (n mod 10)])"

declare itoa.simps [simp del]

section \<open>The address enumerator (ip-generator/internal/domain/ip.go)\<close>

subsection \<open>The seeded permutation\<close>

text \<open>
  \<open>IPPermutation.permute32\<close>: one multiplication by \<open>0x7fffffff\<close> and an exclusive-or with
  the seed, followed by two multiply and shift-xor rounds.  All arithmetic is \<open>uint32\<close>.
\<close>

definition permute32 :: "u32 \<Rightarrow> u32 \<Rightarrow> u32" where
  "permute32 seed x0 =
     (let x1 = (x0 * 0x7fffffff) XOR seed;
          x2 = x1 XOR (drop_bit 16 x1);
          x3 = x2 * 0x85ebca6b;
          x4 = x3 XOR (drop_bit 13 x3);
          x5 = x4 * 0xc2b2ae35;
          x6 = x5 XOR (drop_bit 16 x5)
      in x6)"

text \<open>
  A proof device, not part of the program: the rounds of \<open>permute32\<close> undone in reverse
  order, each multiplier replaced by its inverse modulo \<open>2 ^ 32\<close>.
\<close>

definition unpermute32 :: "u32 \<Rightarrow> u32 \<Rightarrow> u32" where
  "unpermute32 seed y0 =
     (let y1 = y0 XOR (drop_bit 16 y0);
          y2 = y1 * 0x7ed1b41d;
          y3 = y2 XOR (drop_bit 13 y2) XOR (drop_bit 26 y2);
          y4 = y3 * 0xa5cb9243;
          y5 = y4 XOR (drop_bit 16 y4);
          y6 = (y5 XOR seed) * 0x7fffffff
      in y6)"

subsection \<open>Addresses and the public-range test\<close>

text \<open>
  A \<open>net.IP\<close> in its four-byte form.  Every caller of \<open>isValidPublicIP\<close> passes a four-byte
  slice, so the \<open>nil\<close> and sixteen-byte cases of the Go function cannot arise here.
\<close>

type_synonym ip4 = "u8 \<times> u8 \<times> u8 \<times> u8"

definition ipUint :: "ip4 \<Rightarrow> u32" where
  "ipUint ip = (case ip of (a, b, c, d) \<Rightarrow>
     push_bit 24 (ucast a) + push_bit 16 (ucast b) + push_bit 8 (ucast c) + ucast d)"

definition isValidPublicIP :: "ip4 \<Rightarrow> bool" where
  "isValidPublicIP ip =
     (let u = ipUint ip in
      if u \<le> 0x00FFFFFF then False
      else if u \<ge> 0x0A000000 \<and> u \<le> 0x0AFFFFFF then False
      else if u \<ge> 0x7F000000 \<and> u \<le> 0x7FFFFFFF then False
      else if u \<ge> 0xC0A80000 \<and> u \<le> 0xC0A8FFFF then False
      else if u \<ge> 0xE0000000 \<and> u \<le> 0xEFFFFFFF then False
      else if u \<ge> 0xF0000000 then False
      else True)"

text \<open>
  The excluded ranges as the specification lists them, in CIDR notation: an address is
  in \<open>base/len\<close> when its leading \<open>len\<close> bits are those of \<open>base\<close>.
\<close>

definition in_cidr :: "u32 \<Rightarrow> nat \<Rightarrow> u32 \<Rightarrow> bool" where
  "in_cidr base len addr = (drop_bit (32 - len) addr = drop_bit (32 - len) base)"

definition excluded_ranges :: "(u32 \<times> nat) list" where
  "excluded_ranges =
     [(0x00000000, 8), (0x0A000000, 8), (0x7F000000, 8),
      (0xC0A80000, 16), (0xE0000000, 4), (0xF0000000, 4)]"

definition in_excluded_range :: "u32 \<Rightarrow> bool" where
  "in_excluded_range addr = list_ex (\<lambda>(base, len). in_cidr base len addr) excluded_ranges"


subsection \<open>Text forms of an address\<close>

text \<open>
  \<open>net.IP.String\<close> for a four-byte address: the four octets in decimal, separated by dots.
\<close>

definition IP_String :: "ip4 \<Rightarrow> string" where
  "IP_String ip = (case ip of (a, b, c, d) \<Rightarrow>
     itoa (unat a) @ ''.'' @ itoa (unat b) @ ''.'' @ itoa (unat c) @ ''.'' @ itoa (unat d))"

text \<open>
  \<open>net.ParseIP\<close> followed by \<open>To4\<close>.  Go's standard library is not part of the
  repository; its dotted-decimal grammar is written out here: four fields separated by
  dots, each a non-empty run of decimal digits without a leading zero and of value at
  most 255.  The IPv6 text forms that \<open>ParseIP\<close> also accepts are not modelled.  The
  properties of sequential generation are therefore also stated for every four-byte
  starting address, whatever text it was parsed from.
\<close>

fun split_on :: "char \<Rightarrow> string \<Rightarrow> string list" where
  "split_on sep [] = [[]]"
| "split_on sep (x # xs) =
     (if x = sep then [] # split_on sep xs
      else (case split_on sep xs of [] \<Rightarrow> [[x]] | f # fs \<Rightarrow> (x # f) # fs))"

definition is_digit :: "char \<Rightarrow> bool" where
  "is_digit ch \<longleftrightarrow> 48 \<le> (of_char ch :: nat) \<and> (of_char ch :: nat) \<le> 57"

definition dec_val :: "string \<Rightarrow> nat" where
  "dec_val s = foldl (\<lambda>v ch. v * 10 + (of_char ch - 48)) 0 s"

definition parse_octet :: "string \<Rightarrow> u8 option" where
  "parse_octet f =
     (if f = [] \<or> \<not> list_all is_digit f then None
      else if 1 < length f \<and> hd f = CHR ''0'' then None
      else if 255 < dec_val f then None
      else Some (of_nat (dec_val f)))"

definition ParseIP :: "string \<Rightarrow> ip4 option" where
  "ParseIP s =
     (case split_on CHR ''.'' s of
        [f0, f1, f2, f3] \<Rightarrow>
          (case (parse_octet f0, parse_octet f1, parse_octet f2, parse_octet f3) of
             (Some a, Some b, Some c, Some d) \<Rightarrow> Some (a, b, c, d)
           | _ \<Rightarrow> None)
      | _ \<Rightarrow> None)"

text \<open>\<open>uint32\<close> to its four bytes, most significant first, as \<open>GenerateRandomIPs\<close> does.\<close>

definition ipBytes :: "u32 \<Rightarrow> ip4" where
  "ipBytes p = (ucast (drop_bit 24 p), ucast (drop_bit 16 p), ucast (drop_bit 8 p), ucast p)"

subsection \<open>Address objects and errors\<close>

record IPAddress =
  Address :: string

datatype gen_error =
    InvalidIPv4Address string
  | InvalidStartingIP string
  | CouldOnlyGenerate int int

definition isValidIPv4 :: "string \<Rightarrow> bool" where
  "isValidIPv4 address \<longleftrightarrow> ParseIP address \<noteq> None"

definition NewIPAddress :: "string \<Rightarrow> gen_error + IPAddress" where
  "NewIPAddress address =
     (if \<not> isValidIPv4 address then Inl (InvalidIPv4Address address)
      else Inr \<lparr>Address = address\<rparr>)"

subsection \<open>Random mode\<close>

text \<open>
  \<open>GenerateRandomIPs\<close>.  The pseudo-random source \<open>s.rand\<close> is the stream \<open>rnd\<close> of the
  values \<open>uint32(s.rand.Int31())\<close> together with the position \<open>pos\<close> of the next draw; the
  position is returned with the result, since the source is shared by successive calls.
  \<open>generated\<close> is the Go map \<open>map[uint32]bool\<close>, read with default \<open>false\<close>.  One call of
  \<open>randomLoop\<close> is one test of the loop condition followed by one iteration.
\<close>

function randomLoop ::
  "u32 \<Rightarrow> (nat \<Rightarrow> u32) \<Rightarrow> int \<Rightarrow> int \<Rightarrow> IPAddress list \<Rightarrow> (u32 \<Rightarrow> bool) \<Rightarrow> int \<Rightarrow> nat
     \<Rightarrow> IPAddress list \<times> nat" where
  "randomLoop seed rnd count maxAttempts ips generated attempts pos =
     (if int (length ips) < count \<and> attempts < maxAttempts then
        (let randomUint = rnd pos;
             permutedIP = permute32 seed randomUint
         in if generated permutedIP then
              randomLoop seed rnd count maxAttempts ips generated (attempts + 1) (Suc pos)
            else
              (let ip = ipBytes permutedIP
               in if \<not> isValidPublicIP ip then
                    randomLoop seed rnd count maxAttempts ips generated (attempts + 1) (Suc pos)
                  else
                    (case NewIPAddress (IP_String ip) of
                       Inl err \<Rightarrow>
                         randomLoop seed rnd count maxAttempts ips
                           (generated(permutedIP := True)) (attempts + 1) (Suc pos)
                     | Inr ipAddress \<Rightarrow>
                         randomLoop seed rnd count maxAttempts (ips @ [ipAddress])
                           (generated(permutedIP := True)) (attempts + 1) (Suc pos))))
      else (ips, pos))"
  by pat_completeness auto
termination
  by (relation "measure (\<lambda>(seed, rnd, count, maxAttempts, ips, generated, attempts, pos).
         nat (maxAttempts - attempts))") auto

declare randomLoop.simps [simp del]

definition GenerateRandomIPs ::
  "u32 \<Rightarrow> (nat \<Rightarrow> u32) \<Rightarrow> nat \<Rightarrow> int \<Rightarrow> (gen_error + IPAddress list) \<times> nat" where
  "GenerateRandomIPs seed rnd pos count =
     (let maxAttempts = wrap64 (count * 100);
          (ips, pos') = randomLoop seed rnd count maxAttempts [] (\<lambda>_. False) 0 pos
      in if int (length ips) < count
         then (Inl (CouldOnlyGenerate (int (length ips)) count), pos')
         else (Inr ips, pos'))"

subsection \<open>Sequential mode\<close>

text \<open>
  The increment loop \<open>for j := 3; j >= 0; j-- { ip[j]++; if ip[j] != 0 { break } }\<close>: add one
  to the last byte and carry into the byte before while the byte wrapped to zero.
\<close>

definition incIP :: "ip4 \<Rightarrow> ip4" where
  "incIP ip = (case ip of (a, b, c, d) \<Rightarrow>
     if d + 1 \<noteq> 0 then (a, b, c, d + 1)
     else if c + 1 \<noteq> 0 then (a, b, c + 1, 0)
     else if b + 1 \<noteq> 0 then (a, b + 1, 0, 0)
     else (a + 1, 0, 0, 0))"

text \<open>
  The numeric value of an address as a natural number, and the public-range test on it;
  both are used to reason about the loops and are not part of the program.
\<close>

definition ipNat :: "ip4 \<Rightarrow> nat" where
  "ipNat ip = (case ip of (a, b, c, d) \<Rightarrow>
     unat a * 16777216 + unat b * 65536 + unat c * 256 + unat d)"

lemma unat_u8_lt: "unat (x::u8) < 256"
proof -
  have "unat x < 2 ^ LENGTH(8)" by (rule unsigned_less)
  then show ?thesis by simp
qed

lemma ipNat_lt: "ipNat ip < 4294967296"
proof -
  obtain a b c d where ip: "ip = (a, b, c, d)" by (cases ip) auto
  show ?thesis
    using unat_u8_lt [of a] unat_u8_lt [of b] unat_u8_lt [of c] unat_u8_lt [of d]
    by (simp add: ipNat_def ip)
qed

lemma unat_ipUint: "unat (ipUint ip) = ipNat ip"
proof -
  obtain a b c d where ip: "ip = (a, b, c, d)" by (cases ip) auto
  have "ipUint ip = of_nat (unat a) * 16777216 + of_nat (unat b) * 65536
           + of_nat (unat c) * 256 + of_nat (unat d)"
    by (simp add: ipUint_def ip push_bit_eq_mult)
  also have "\<dots> = of_nat (ipNat ip)"
    by (simp add: ipNat_def ip)
  finally have "ipUint ip = of_nat (ipNat ip)" .
  then show ?thesis using ipNat_lt [of ip]
    by (simp add: unat_of_nat)
qed

lemma u8_succ_cases:
  "(x::u8) + 1 = 0 \<and> unat x = 255 \<or> x + 1 \<noteq> 0 \<and> unat (x + 1) = unat x + 1 \<and> unat x < 255"
proof -
  have a: "unat (x + 1) = (unat x + 1) mod 256" by (simp add: unat_word_ariths)
  have b: "x + 1 = 0 \<longleftrightarrow> unat (x + 1) = 0" by (simp add: unat_eq_0)
  show ?thesis using a b unat_u8_lt [of x] by (cases "unat x = 255") auto
qed

lemma ipNat_incIP: "ipNat (incIP ip) = (ipNat ip + 1) mod 4294967296"
proof -
  obtain a b c d where ip: "ip = (a, b, c, d)" by (cases ip) auto
  show ?thesis
    using u8_succ_cases [of a] u8_succ_cases [of b] u8_succ_cases [of c] u8_succ_cases [of d]
      unat_u8_lt [of a] unat_u8_lt [of b] unat_u8_lt [of c] unat_u8_lt [of d]
    by (auto simp: incIP_def ip ipNat_def)
qed

definition validNat :: "nat \<Rightarrow> bool" where
  "validNat n \<longleftrightarrow> \<not> (n \<le> 0x00FFFFFF) \<and> \<not> (0x0A000000 \<le> n \<and> n \<le> 0x0AFFFFFF)
     \<and> \<not> (0x7F000000 \<le> n \<and> n \<le> 0x7FFFFFFF) \<and> \<not> (0xC0A80000 \<le> n \<and> n \<le> 0xC0A8FFFF)
     \<and> \<not> (0xE0000000 \<le> n \<and> n \<le> 0xEFFFFFFF) \<and> \<not> (0xF0000000 \<le> n)"

lemma isValidPublicIP_nat: "isValidPublicIP ip \<longleftrightarrow> validNat (ipNat ip)"
  by (simp add: isValidPublicIP_def Let_def word_le_nat_alt unat_ipUint validNat_def)

definition skipGap :: "ip4 \<Rightarrow> nat" where
  "skipGap ip = (if isValidPublicIP ip then 0
                 else if ipNat ip < 16777216 then 16777216 - ipNat ip
                 else 4294967296 + 16777216 - ipNat ip)"

lemma skipGap_decreases: "\<not> isValidPublicIP ip \<Longrightarrow> skipGap (incIP ip) < skipGap ip"
  using ipNat_lt [of ip]
  apply (simp add: skipGap_def isValidPublicIP_nat ipNat_incIP)
  apply (cases "ipNat ip = 4294967295")
   apply (simp add: validNat_def)
  apply (simp add: validNat_def)
  apply arith
  done

text \<open>
  The inner loop \<open>for !isValidPublicIP(ip) { increment }\<close>.  It terminates because the
  distance to the next public address decreases with every increment; after
  255.255.255.255 the bytes wrap to 0.0.0.0 and the loop runs on to 1.0.0.0.
\<close>

function skipInvalid :: "ip4 \<Rightarrow> ip4" where
  "skipInvalid ip = (if isValidPublicIP ip then ip else skipInvalid (incIP ip))"
  by pat_completeness auto
termination
  by (relation "measure skipGap") (simp_all add: skipGap_decreases)

declare skipInvalid.simps [simp del]

text \<open>
  The outer loop \<open>for i := 0; i < count; i++\<close> of \<open>GenerateSequentialIPs\<close>, with the
  number of remaining iterations as a natural number (none when \<open>count \<le> 0\<close>).
\<close>

fun sequentialLoop :: "ip4 \<Rightarrow> nat \<Rightarrow> gen_error + IPAddress list" where
  "sequentialLoop ip 0 = Inr []"
| "sequentialLoop ip (Suc k) =
     (let ip' = skipInvalid ip
      in case NewIPAddress (IP_String ip') of
           Inl err \<Rightarrow> Inl err
         | Inr ipAddress \<Rightarrow>
             (case sequentialLoop (incIP ip') k of
                Inl err \<Rightarrow> Inl err
              | Inr ips \<Rightarrow> Inr (ipAddress # ips)))"

definition GenerateSequentialIPs :: "string \<Rightarrow> int \<Rightarrow> gen_error + IPAddress list" where
  "GenerateSequentialIPs startIP count =
     (case ParseIP startIP of
        None \<Rightarrow> Inl (InvalidStartingIP startIP)
      | Some ip \<Rightarrow> sequentialLoop ip (nat count))"

text \<open>
  An emitted address lies outside the excluded ranges when its text parses to a four-byte
  address whose 32-bit value is in none of them.
\<close>

definition outside_excluded :: "IPAddress \<Rightarrow> bool" where
  "outside_excluded a =
     (case ParseIP (Address a) of
        None \<Rightarrow> False
      | Some ip \<Rightarrow> \<not> in_excluded_range (ipUint ip))"

text \<open>
  The invariant of both generation loops, used in the proofs: an emitted address is the dotted
  text of a four-byte address that \<open>isValidPublicIP\<close> accepts.
\<close>

definition emitted_ok :: "IPAddress \<Rightarrow> bool" where
  "emitted_ok a \<longleftrightarrow> (\<exists>ip. Address a = IP_String ip \<and> isValidPublicIP ip)"

section \<open>The batch dispatcher (ip-generator/internal/application/service.go)\<close>

text \<open>\<open>QueueMessage\<close>, as both services declare it.\<close>

record QueueMessage =
  IPs :: "string list"
  BatchID :: string
  Count :: int

datatype svc_error =
    CountNotPositive
  | GenerateFailed int gen_error
  | PublishFailed string

text \<open>\<open>%d\<close> of a signed integer.\<close>

definition fmt_int :: "int \<Rightarrow> string" where
  "fmt_int i = (if i < 0 then CHR ''-'' # itoa (nat (- i)) else itoa (nat i))"

text \<open>
  \<open>generateBatchID\<close>: the text \<open>batch-\<close> followed by the clock reading
  \<open>time.Now().UnixNano()\<close>, which the environment supplies as \<open>now\<close>.
\<close>

definition generateBatchID :: "int \<Rightarrow> string" where
  "generateBatchID now = ''batch-'' @ fmt_int now"

text \<open>
  \<open>IPGeneratorService.GenerateIPs\<close>, the generator the service is wired to in
  \<open>cmd/server/main.go\<close>.
\<close>

definition GenerateIPs ::
  "u32 \<Rightarrow> (nat \<Rightarrow> u32) \<Rightarrow> nat \<Rightarrow> int \<Rightarrow> (gen_error + IPAddress list) \<times> nat" where
  "GenerateIPs seed rnd pos count = GenerateRandomIPs seed rnd pos count"

text \<open>
  \<open>RabbitMQPublisher.PublishBatch\<close>: publish the messages in order and stop at the first
  failure.  \<open>publish\<close> is the outcome of \<open>Publish\<close> on one message (\<open>None\<close> for success); the
  result lists the messages the queue accepted.
\<close>

fun PublishBatch ::
  "(QueueMessage \<Rightarrow> string option) \<Rightarrow> QueueMessage list \<Rightarrow> QueueMessage list \<times> string option" where
  "PublishBatch publish [] = ([], None)"
| "PublishBatch publish (message # messages) =
     (case publish message of
        Some err \<Rightarrow> ([], Some err)
      | None \<Rightarrow> (case PublishBatch publish messages of
                   (accepted, r) \<Rightarrow> (message # accepted, r)))"

text \<open>
  The loop \<open>for i := 0; i < numBatches; i++\<close> of \<open>GenerateAndPublishIPs\<close>; one call is one
  test of the loop condition followed by one iteration.  The position of the random
  source is threaded through the calls of the generator.
\<close>

function batchLoop ::
  "u32 \<Rightarrow> (nat \<Rightarrow> u32) \<Rightarrow> string \<Rightarrow> int \<Rightarrow> int \<Rightarrow> int \<Rightarrow> int \<Rightarrow> nat \<Rightarrow> QueueMessage list
     \<Rightarrow> (svc_error + QueueMessage list) \<times> nat" where
  "batchLoop seed rnd batchID count batchSize numBatches i pos messages =
     (if i < numBatches then
        (let currentBatchSize =
               (if i = numBatches - 1 \<and> go_rem count batchSize \<noteq> 0
                then go_rem count batchSize else batchSize)
         in case GenerateIPs seed rnd pos currentBatchSize of
              (Inl err, pos') \<Rightarrow> (Inl (GenerateFailed i err), pos')
            | (Inr ips, pos') \<Rightarrow>
                (let ipStrings = map Address ips;
                     message = \<lparr>IPs = ipStrings,
                                BatchID = batchID @ ''-'' @ fmt_int i,
                                Count = int (length ipStrings)\<rparr>
                 in batchLoop seed rnd batchID count batchSize numBatches (i + 1) pos'
                      (messages @ [message])))
      else (Inr messages, pos))"
  by pat_completeness auto
termination
  by (relation "measure (\<lambda>(seed, rnd, batchID, count, batchSize, numBatches, i, pos, messages).
         nat (numBatches - i))") auto

declare batchLoop.simps [simp del]

text \<open>
  What one call of \<open>GenerateAndPublishIPs\<close> did: the error it returned, the messages it
  built and handed to \<open>PublishBatch\<close>, the messages the queue accepted, and the position of
  the random source afterwards.
\<close>

record dispatch_outcome =
  Err :: "svc_error option"
  Messages :: "QueueMessage list"
  Published :: "QueueMessage list"
  RngPos :: nat

definition GenerateAndPublishIPs ::
  "u32 \<Rightarrow> (nat \<Rightarrow> u32) \<Rightarrow> nat \<Rightarrow> int \<Rightarrow> (QueueMessage \<Rightarrow> string option) \<Rightarrow> int \<Rightarrow> int
     \<Rightarrow> dispatch_outcome" where
  "GenerateAndPublishIPs seed rnd pos now publish count batchSize0 =
     (if count \<le> 0 then
        \<lparr>Err = Some CountNotPositive, Messages = [], Published = [], RngPos = pos\<rparr>
      else
        (let batchSize = (if batchSize0 \<le> 0 then 100 else batchSize0);
             numBatches = go_quot (wrap64 (wrap64 (count + batchSize) - 1)) batchSize;
             batchID = generateBatchID now
         in case batchLoop seed rnd batchID count batchSize numBatches 0 pos [] of
              (Inl err, pos') \<Rightarrow>
                \<lparr>Err = Some err, Messages = [], Published = [], RngPos = pos'\<rparr>
            | (Inr messages, pos') \<Rightarrow>
                (case PublishBatch publish messages of
                   (accepted, Some err) \<Rightarrow>
                     \<lparr>Err = Some (PublishFailed err), Messages = messages,
                      Published = accepted, RngPos = pos'\<rparr>
                 | (accepted, None) \<Rightarrow>
                     \<lparr>Err = None, Messages = messages, Published = accepted, RngPos = pos'\<rparr>)))"

text \<open>
  The size the loop requests for batch \<open>i\<close>, and what is expected of the message built
  for it; both are used to state the result of the loop.
\<close>

definition currentBatchSize :: "int \<Rightarrow> int \<Rightarrow> int \<Rightarrow> int \<Rightarrow> int" where
  "currentBatchSize count batchSize numBatches i =
     (if i = numBatches - 1 \<and> go_rem count batchSize \<noteq> 0
      then go_rem count batchSize else batchSize)"

definition batch_ok :: "string \<Rightarrow> int \<Rightarrow> int \<Rightarrow> int \<Rightarrow> int \<Rightarrow> QueueMessage \<Rightarrow> bool" where
  "batch_ok batchID count batchSize numBatches i m \<longleftrightarrow>
     BatchID m = batchID @ ''-'' @ fmt_int i
     \<and> Count m = currentBatchSize count batchSize numBatches i
     \<and> int (length (IPs m)) = Count m"

section \<open>Scan results (port-scanner/internal/domain/scan.go)\<close>

text \<open>
  Instants (\<open>time.Time\<close>) and durations (\<open>time.Duration\<close>) are integers.  Where two Go
  structs have a field of the same name, the later record prefixes it: \<open>PortStatus\<close>,
  \<open>PortService\<close>, \<open>PortVersion\<close> and \<open>PortBannerInfo\<close> are the fields \<open>Status\<close>, \<open>Service\<close>,
  \<open>Version\<close> and \<open>BannerInfo\<close> of \<open>Port\<close>, and \<open>ScanBatchID\<close> is the field \<open>BatchID\<close> of
  \<open>ScanResult\<close>.
\<close>

datatype scan_status =
  ScanStatusPending | ScanStatusRunning | ScanStatusCompleted | ScanStatusFailed | ScanStatusTimeout

datatype port_status = PortStatusOpen | PortStatusClosed | PortStatusFiltered

text \<open>
  \<open>Metadata\<close> is a Go map from names to decoded JSON values; it is kept as a list with one
  entry per key, the value as text, so that \<open>len\<close> is the length of the list.
\<close>

record BannerInfo =
  RawBanner :: string
  Service :: string
  Protocol :: string
  Version :: string
  Confidence :: string
  Metadata :: "(string \<times> string) list"

record Port =
  Number :: int
  PortStatus :: port_status
  PortService :: string
  Banner :: string
  PortVersion :: string
  ScanTime :: int
  ResponseTime :: int
  PortBannerInfo :: "BannerInfo option"

definition NewPort :: "int \<Rightarrow> int \<Rightarrow> Port" where
  "NewPort now number =
     \<lparr>Number = number, PortStatus = PortStatusClosed, PortService = [], Banner = [],
      PortVersion = [], ScanTime = now, ResponseTime = 0, PortBannerInfo = None\<rparr>"

record ScanResult =
  IP :: string
  IsUp :: bool
  PingTime :: int
  ScanStartTime :: int
  ScanEndTime :: int
  Ports :: "Port list"
  Status :: scan_status
  Error :: string
  ScanBatchID :: string
  WorkerID :: string

definition NewScanResult :: "int \<Rightarrow> string \<Rightarrow> string \<Rightarrow> string \<Rightarrow> ScanResult" where
  "NewScanResult now ip batchID workerID =
     \<lparr>IP = ip, IsUp = False, PingTime = 0, ScanStartTime = now, ScanEndTime = 0,
      Ports = [], Status = ScanStatusPending, Error = [], ScanBatchID = batchID,
      WorkerID = workerID\<rparr>"

definition AddPort :: "Port \<Rightarrow> ScanResult \<Rightarrow> ScanResult" where
  "AddPort port sr = sr\<lparr>Ports := Ports sr @ [port]\<rparr>"

definition SetCompleted :: "int \<Rightarrow> ScanResult \<Rightarrow> ScanResult" where
  "SetCompleted now sr = sr\<lparr>ScanEndTime := now, Status := ScanStatusCompleted\<rparr>"

definition SetFailed :: "int \<Rightarrow> string \<Rightarrow> ScanResult \<Rightarrow> ScanResult" where
  "SetFailed now err sr = sr\<lparr>ScanEndTime := now, Status := ScanStatusFailed, Error := err\<rparr>"

definition GetOpenPorts :: "ScanResult \<Rightarrow> Port list" where
  "GetOpenPorts sr = [port \<leftarrow> Ports sr. PortStatus port = PortStatusOpen]"

record ScanConfig =
  PingTimeout :: int
  ConnectTimeout :: int
  BannerTimeout :: int
  MaxRetries :: int
  RetryDelay :: int
  Concurrency :: int
  ZGrabConcurrency :: int
  PortRange :: "int list"
  DefaultPorts :: "int list"
  EnableBanner :: bool
  EnablePing :: bool
  PriorityPorts :: "int list"

definition NewDefaultScanConfig :: ScanConfig where
  "NewDefaultScanConfig =
     \<lparr>PingTimeout = 5000000000, ConnectTimeout = 3000000000, BannerTimeout = 2000000000,
      MaxRetries = 3, RetryDelay = 1000000000, Concurrency = 100, ZGrabConcurrency = 20,
      PortRange = [],
      DefaultPorts = [21, 22, 23, 25, 53, 80, 110, 143, 443, 993, 995, 3306, 3389, 5432,
                      8080, 8443],
      EnableBanner = True, EnablePing = True,
      PriorityPorts = [80, 443, 22, 21, 25, 3306, 5432]\<rparr>"

section \<open>The reachability probe (package ping)\<close>

text \<open>\<open>strings.Contains\<close>.\<close>

fun has_prefix :: "string \<Rightarrow> string \<Rightarrow> bool" where
  "has_prefix [] s = True"
| "has_prefix (p # ps) [] = False"
| "has_prefix (p # ps) (x # xs) = (p = x \<and> has_prefix ps xs)"

fun contains :: "string \<Rightarrow> string \<Rightarrow> bool" where
  "contains [] sub = (sub = [])"
| "contains (x # xs) sub = (has_prefix sub (x # xs) \<or> contains xs sub)"

text \<open>
  The errors \<open>PingHost\<close> and \<open>analyzePingResult\<close> build with \<open>fmt.Errorf\<close>, each with the
  text it wraps, and the message \<open>Error()\<close> gives.
\<close>

datatype ping_error =
    InvalidIPFormat string
  | PingTimeout string
  | PingNotAvailable string
  | PingFailed string

definition ping_error_text :: "ping_error \<Rightarrow> string" where
  "ping_error_text e =
     (case e of
        InvalidIPFormat ip \<Rightarrow> ''invalid IP address format: '' @ ip
      | PingTimeout c \<Rightarrow> ''ping timeout: '' @ c
      | PingNotAvailable c \<Rightarrow> ''ping command not available: '' @ c
      | PingFailed c \<Rightarrow> ''ping failed: '' @ c)"

record PingResult =
  PingIsUp :: bool
  PingDuration :: int
  PingError :: "ping_error option"

text \<open>
  What running the external \<open>ping\<close> command under its deadline gave: the text of the error
  \<open>cmd.Run\<close> returned, if any, the time it took, the text of \<open>ctx.Err()\<close>, if the context
  is done, and what the command wrote to its standard output.  \<open>buildPingCommand\<close> does not
  set \<open>cmd.Stdout\<close>, so the output is discarded and no function below reads \<open>RunOutput\<close>.
\<close>

record cmd_outcome =
  RunErr :: "string option"
  RunDuration :: int
  CtxErr :: "string option"
  RunOutput :: string

text \<open>
  \<open>isValidIP\<close>: the text matches \<open>^(\d{1,3}\.){3}\d{1,3}$\<close>, that is four dot-separated runs
  of one to three decimal digits, and every run has a value of at most 255.
\<close>

definition isValidIP :: "string \<Rightarrow> bool" where
  "isValidIP ip =
     (let parts = split_on CHR ''.'' ip
      in if \<not> (length parts = 4
                \<and> list_all (\<lambda>part. 1 \<le> length part \<and> length part \<le> 3
                                     \<and> list_all is_digit part) parts)
         then False
         else list_all (\<lambda>part. dec_val part \<le> 255) parts)"

definition analyzePingResult :: "string option \<Rightarrow> int \<Rightarrow> string option \<Rightarrow> PingResult" where
  "analyzePingResult err duration ctxErr =
     (case err of
        Some e \<Rightarrow>
          (case ctxErr of
             Some c \<Rightarrow>
               \<lparr>PingIsUp = False, PingDuration = duration, PingError = Some (PingTimeout c)\<rparr>
           | None \<Rightarrow>
               if contains e ''executable file not found'' then
                 \<lparr>PingIsUp = False, PingDuration = duration,
                  PingError = Some (PingNotAvailable e)\<rparr>
               else if contains e ''100% packet loss''
                       \<or> contains e ''Destination Host Unreachable'' then
                 \<lparr>PingIsUp = False, PingDuration = duration, PingError = None\<rparr>
               else
                 \<lparr>PingIsUp = False, PingDuration = duration, PingError = Some (PingFailed e)\<rparr>)
      | None \<Rightarrow> \<lparr>PingIsUp = True, PingDuration = duration, PingError = None\<rparr>)"

text \<open>
  \<open>SafePingService.PingHost\<close>; \<open>run\<close> is the outcome of the command for an address.  The
  Go function returns its result with a \<open>nil\<close> error on every path.
\<close>

definition SafePingService_PingHost :: "(string \<Rightarrow> cmd_outcome) \<Rightarrow> string \<Rightarrow> PingResult" where
  "SafePingService_PingHost run ip =
     (if \<not> isValidIP ip then
        \<lparr>PingIsUp = False, PingDuration = 0, PingError = Some (InvalidIPFormat ip)\<rparr>
      else
        (let outcome = run ip
         in analyzePingResult (RunErr outcome) (RunDuration outcome) (CtxErr outcome)))"

section \<open>The scanner (package domain, ScannerService)\<close>

text \<open>
  A call returns a value, panics, or never returns.
\<close>

datatype 'a outcome = Returns 'a | Panics | Blocks

text \<open>
  The network as one scan sees it: the outcome of the ping command, whether a TCP
  connection to a port is accepted and after how long, what the banner grabber returns
  for an open port, the order in which the goroutines of a port scan of an address
  finish, and the reading of the clock.  One reading of the clock stands for every
  \<open>time.Now()\<close> of a call; no property below depends on it.
\<close>

record scan_env =
  run_ping :: "string \<Rightarrow> cmd_outcome"
  dial :: "string \<Rightarrow> int \<Rightarrow> bool \<times> int"
  get_banner :: "string \<Rightarrow> int \<Rightarrow> BannerInfo \<times> string option"
  finish_order :: "string \<Rightarrow> nat list"
  clock :: int

datatype scan_error = PingErr ping_error | PortScanErr string

definition scan_error_text :: "scan_error \<Rightarrow> string" where
  "scan_error_text e = (case e of PingErr p \<Rightarrow> ping_error_text p | PortScanErr s \<Rightarrow> s)"

text \<open>\<open>ScannerService.PingHost\<close>: liveness, duration and error.\<close>

definition PingHost :: "scan_env \<Rightarrow> string \<Rightarrow> bool \<times> int \<times> ping_error option" where
  "PingHost env ip =
     (let result = SafePingService_PingHost (run_ping env) ip
      in case PingError result of
           Some e \<Rightarrow> (False, PingDuration result, Some e)
         | None \<Rightarrow> (PingIsUp result, PingDuration result, None))"

text \<open>
  \<open>ScanPort\<close>: a refused or timed-out connection is a closed port, not an error; the
  banner is recorded only when the grabber returns no error.
\<close>

definition ScanPort :: "scan_env \<Rightarrow> ScanConfig \<Rightarrow> string \<Rightarrow> int \<Rightarrow> Port \<times> string option" where
  "ScanPort env cfg ip port =
     (let portObj = NewPort (clock env) port
      in case dial env ip port of
           (False, elapsed) \<Rightarrow>
             (portObj\<lparr>PortStatus := PortStatusClosed, ResponseTime := elapsed\<rparr>, None)
         | (True, elapsed) \<Rightarrow>
             (let portObj = portObj\<lparr>PortStatus := PortStatusOpen, ResponseTime := elapsed\<rparr>
              in if EnableBanner cfg then
                   (case get_banner env ip port of
                      (bannerInfo, None) \<Rightarrow>
                        (portObj\<lparr>Banner := RawBanner bannerInfo,
                                 PortService := Service bannerInfo,
                                 PortVersion := Version bannerInfo,
                                 PortBannerInfo := Some bannerInfo\<rparr>, None)
                    | (bannerInfo, Some err) \<Rightarrow> (portObj, None))
                 else (portObj, None)))"

text \<open>
  \<open>scanPortWithRetry\<close>: the loop \<open>for attempt := 0; attempt <= MaxRetries; attempt++\<close>,
  one call being one test of the condition and one iteration.
\<close>

function retryLoop ::
  "scan_env \<Rightarrow> ScanConfig \<Rightarrow> string \<Rightarrow> int \<Rightarrow> int \<Rightarrow> string option \<Rightarrow> Port \<times> string option" where
  "retryLoop env cfg ip port attempt lastErr =
     (if attempt \<le> MaxRetries cfg then
        (case ScanPort env cfg ip port of
           (portResult, None) \<Rightarrow> (portResult, None)
         | (portResult, Some err) \<Rightarrow> retryLoop env cfg ip port (attempt + 1) (Some err))
      else (NewPort (clock env) port, lastErr))"
  by pat_completeness auto
termination
  by (relation "measure (\<lambda>(env, cfg, ip, port, attempt, lastErr).
         nat (MaxRetries cfg - attempt + 1))") auto

declare retryLoop.simps [simp del]

definition scanPortWithRetry ::
  "scan_env \<Rightarrow> ScanConfig \<Rightarrow> string \<Rightarrow> int \<Rightarrow> Port \<times> string option" where
  "scanPortWithRetry env cfg ip port = retryLoop env cfg ip port 0 None"

text \<open>
  The order in which goroutines append to a shared slice is not fixed by the program.  It
  is given as a list of picks: each pick takes one of the elements that are still to be
  appended (the pick modulo their number), and when the picks run out the remaining
  elements follow in their order.  Every list of picks gives a rearrangement of the
  elements, and every rearrangement is given by some list of picks.
\<close>

fun schedule :: "nat list \<Rightarrow> 'a list \<Rightarrow> 'a list" where
  "schedule [] xs = xs"
| "schedule (k # ks) xs =
     (if xs = [] then []
      else (let i = k mod length xs
            in xs ! i # schedule ks (take i xs @ drop (Suc i) xs)))"

text \<open>
  The goroutines of \<open>ScanPorts\<close>, one per port: each scans its port with retries and
  appends the result under the mutex; a port whose scan returns an error is left out.
\<close>

fun collectPorts :: "scan_env \<Rightarrow> ScanConfig \<Rightarrow> string \<Rightarrow> int list \<Rightarrow> Port list" where
  "collectPorts env cfg ip [] = []"
| "collectPorts env cfg ip (p # ports) =
     (case scanPortWithRetry env cfg ip p of
        (portResult, None) \<Rightarrow> portResult # collectPorts env cfg ip ports
      | (portResult, Some err) \<Rightarrow> collectPorts env cfg ip ports)"

text \<open>
  \<open>ScanPorts\<close>.  The semaphore is \<open>make(chan struct{}, s.config.Concurrency)\<close>: a negative
  capacity panics; with capacity zero the channel is unbuffered, every goroutine blocks
  on \<open>semaphore <- struct{}{}\<close> (the only receive is the deferred one that follows it), and
  \<open>wg.Wait()\<close> never returns unless there is no port at all.  Otherwise the call returns
  the results in the order in which the goroutines finished, with a \<open>nil\<close> error.
\<close>

definition ScanPorts ::
  "scan_env \<Rightarrow> ScanConfig \<Rightarrow> string \<Rightarrow> int list \<Rightarrow> (Port list \<times> string option) outcome" where
  "ScanPorts env cfg ip ports =
     (if Concurrency cfg < 0 then Panics
      else if Concurrency cfg = 0 \<and> ports \<noteq> [] then Blocks
      else Returns (schedule (finish_order env ip) (collectPorts env cfg ip ports), None))"

text \<open>
  \<open>ScanIP\<close>.  \<open>scfg\<close> is the configuration the scanner was built with (\<open>s.config\<close>), which
  the port scan reads; \<open>config\<close> is the argument, \<open>None\<close> for \<open>nil\<close>.  The call returns
  unless the port scan panics or blocks.
\<close>

definition ScanIP ::
  "scan_env \<Rightarrow> ScanConfig \<Rightarrow> string \<Rightarrow> ScanConfig option \<Rightarrow> string \<Rightarrow> string
     \<Rightarrow> (ScanResult \<times> scan_error option) outcome" where
  "ScanIP env scfg ip config0 batchID workerID =
     (let config = (case config0 of None \<Rightarrow> scfg | Some c \<Rightarrow> c);
          result = (NewScanResult (clock env) ip batchID workerID)\<lparr>Status := ScanStatusRunning\<rparr>;
          scanPortsStep = (\<lambda>result.
            let portsToScan = (if 0 < length (PortRange config) then PortRange config
                               else DefaultPorts config)
            in case ScanPorts env scfg ip portsToScan of
                 Panics \<Rightarrow> Panics
               | Blocks \<Rightarrow> Blocks
               | Returns (ports, Some err) \<Rightarrow>
                   Returns (SetFailed (clock env) (''port scan failed: '' @ err) result,
                            Some (PortScanErr err))
               | Returns (ports, None) \<Rightarrow>
                   Returns (SetCompleted (clock env) (fold AddPort ports result), None))
      in if EnablePing config then
           (case PingHost env ip of
              (isUp, pingTime, Some err) \<Rightarrow>
                Returns (SetFailed (clock env) (''ping failed: '' @ ping_error_text err) result,
                         Some (PingErr err))
            | (isUp, pingTime, None) \<Rightarrow>
                (let result = result\<lparr>IsUp := isUp, PingTime := pingTime\<rparr>
                 in if \<not> isUp then Returns (SetCompleted (clock env) result, None)
                    else scanPortsStep result))
         else scanPortsStep (result\<lparr>IsUp := True\<rparr>))"

section \<open>Selection among probe outputs (port-scanner/internal/infrastructure/banner/zgrab.go)\<close>

text \<open>
  \<open>calculateResultPriority\<close>: the variable \<open>priority\<close> starts at zero and is increased in
  four steps.  \<open>len\<close> of a Go string counts bytes, as \<open>length\<close> does here.
\<close>

definition calculateResultPriority :: "BannerInfo \<Rightarrow> int" where
  "calculateResultPriority bannerInfo =
     (let priority = 0;
          priority = (if Confidence bannerInfo = ''zgrab2'' then priority + 100
                      else if Confidence bannerInfo = ''banner'' then priority + 50
                      else if Confidence bannerInfo = ''port'' then priority + 10
                      else priority);
          priority = (if Version bannerInfo \<noteq> [] then priority + 20 else priority);
          priority = (if 10 < length (RawBanner bannerInfo) then priority + 10 else priority);
          priority = (if 0 < length (Metadata bannerInfo) then priority + 5 else priority)
      in priority)"

text \<open>
  \<open>strings.TrimSpace\<close> for the ASCII white space characters (tab, line feed, vertical
  tab, form feed, carriage return, space); the white space characters outside ASCII
  that Go also trims are not modelled.
\<close>

definition is_space :: "char \<Rightarrow> bool" where
  "is_space ch \<longleftrightarrow> (of_char ch :: nat) \<in> {9, 10, 11, 12, 13, 32}"

definition TrimSpace :: "string \<Rightarrow> string" where
  "TrimSpace s = rev (dropWhile is_space (rev (dropWhile is_space s)))"

text \<open>
  The loop of \<open>parseZGrabOutput\<close> over the lines of the output, with its two variables
  \<open>bestResult\<close> and \<open>highestPriority\<close>.  \<open>analyse\<close> stands for decoding a line with
  \<open>json.Unmarshal\<close> and, when that succeeds, calling \<open>analyzeZGrabResult\<close> on the document
  for the port at hand; it is \<open>None\<close> for a line that does not decode.
\<close>

fun selectBest ::
  "(string \<Rightarrow> BannerInfo option) \<Rightarrow> string list \<Rightarrow> BannerInfo option \<times> int
     \<Rightarrow> BannerInfo option \<times> int" where
  "selectBest analyse [] (bestResult, highestPriority) = (bestResult, highestPriority)"
| "selectBest analyse (line # lines) (bestResult, highestPriority) =
     (if TrimSpace line = [] then selectBest analyse lines (bestResult, highestPriority)
      else
        (case analyse line of
           None \<Rightarrow> selectBest analyse lines (bestResult, highestPriority)
         | Some bannerInfo \<Rightarrow>
             (let priority = calculateResultPriority bannerInfo
              in if priority > highestPriority
                 then selectBest analyse lines (Some bannerInfo, priority)
                 else selectBest analyse lines (bestResult, highestPriority))))"

definition unknown_banner :: "string \<Rightarrow> BannerInfo" where
  "unknown_banner raw =
     \<lparr>RawBanner = raw, Service = ''unknown'', Protocol = ''tcp'', Version = [],
      Confidence = ''port'', Metadata = []\<rparr>"

definition parseZGrabOutput ::
  "(string \<Rightarrow> BannerInfo option) \<Rightarrow> string \<Rightarrow> BannerInfo \<times> string option" where
  "parseZGrabOutput analyse output =
     (let lines = split_on (CHR 0x0A) (TrimSpace output)
      in if length lines = 0 then (unknown_banner [], None)
         else
           (case fst (selectBest analyse lines (None, - 1)) of
              None \<Rightarrow> (unknown_banner output, None)
            | Some bestResult \<Rightarrow> (bestResult, None)))"

text \<open>
  The score as the specification writes it, and the results of the documents that
  decode, in the order of the output.
\<close>

definition base_score :: "string \<Rightarrow> int" where
  "base_score confidence =
     (if confidence = ''zgrab2'' then 100
      else if confidence = ''banner'' then 50
      else if confidence = ''port'' then 10
      else 0)"

definition spec_score :: "BannerInfo \<Rightarrow> int" where
  "spec_score b =
     base_score (Confidence b)
     + 20 * of_bool (Version b \<noteq> [])
     + 10 * of_bool (10 < length (RawBanner b))
     + 5 * of_bool (0 < length (Metadata b))"

definition parsed_documents :: "(string \<Rightarrow> BannerInfo option) \<Rightarrow> string \<Rightarrow> BannerInfo list" where
  "parsed_documents analyse output =
     List.map_filter (\<lambda>line. if TrimSpace line = [] then None else analyse line)
       (split_on (CHR 0x0A) (TrimSpace output))"

text \<open>One step of the loop on a decoded document, and the loop as a fold over them.\<close>

definition keep_better :: "BannerInfo option \<times> int \<Rightarrow> BannerInfo \<Rightarrow> BannerInfo option \<times> int" where
  "keep_better st b = (if spec_score b > snd st then (Some b, spec_score b) else st)"

section \<open>The queue manager (port-scanner/internal/infrastructure/queue/rabbitmq.go)\<close>

text \<open>
  The messages of the three result queues.  The fields \<open>MsgScanResult\<close>, \<open>MsgTimestamp\<close>
  and \<open>MsgWorkerID\<close> are \<open>ScanResult\<close>, \<open>Timestamp\<close> and \<open>WorkerID\<close> of
  \<open>ScanResultMessage\<close>; the prefixes \<open>Enr\<close> and \<open>Svc\<close> mark the fields of
  \<open>EnrichmentMessage\<close> and \<open>ServiceAnalysisMessage\<close>.
\<close>

record ScanResultMessage =
  MsgScanResult :: ScanResult
  MsgTimestamp :: int
  MsgWorkerID :: string

record EnrichmentMessage =
  EnrIP :: string
  EnrIsUp :: bool
  EnrBatchID :: string
  EnrTimestamp :: int

record ServiceAnalysisMessage =
  SvcIP :: string
  SvcOpenPorts :: "Port list"
  SvcBatchID :: string
  SvcTimestamp :: int

text \<open>
  What the manager does to the outside world, in the order in which it does it: it
  acknowledges or rejects a delivery, saves a result to the document store, and
  publishes to one of the three queues.  A publication carries the message and the error
  the publishing function returned for it: \<open>None\<close> when \<open>channel.Publish\<close> accepted the
  message, the error text when the message could not be encoded or the channel refused it.
\<close>

datatype event =
    Ack bool
  | Nack bool bool
  | SaveScanResult ScanResult
  | PublishToScanResultQueue ScanResultMessage "string option"
  | PublishToEnrichmentQueue EnrichmentMessage "string option"
  | PublishToServiceAnalysisQueue ServiceAnalysisMessage "string option"

text \<open>
  The message bus and the store as the manager sees them: what \<open>channel.Consume\<close>
  returns, what \<open>json.Unmarshal\<close> makes of a delivery body (the error text, or the batch
  message), whether saving or publishing a given message fails and with what error, and
  the reading of \<open>time.Now().Unix()\<close>.
\<close>

record bus_env =
  consume_error :: "string option"
  unmarshal :: "string \<Rightarrow> string + QueueMessage"
  save_error :: "ScanResult \<Rightarrow> string option"
  publish_result_error :: "ScanResultMessage \<Rightarrow> string option"
  publish_enrichment_error :: "EnrichmentMessage \<Rightarrow> string option"
  publish_service_error :: "ServiceAnalysisMessage \<Rightarrow> string option"
  unix_now :: int

text \<open>
  A scan handler, \<open>func(string, *ScanConfig, string, string) (*ScanResult, error)\<close>: a call
  returns the result and the text of its error, if any, or panics, or never returns.
\<close>

type_synonym scan_handler =
  "string \<Rightarrow> ScanConfig \<Rightarrow> string \<Rightarrow> string \<Rightarrow> (ScanResult \<times> string option) outcome"

text \<open>
  The fields of \<open>RabbitMQManager\<close> that \<open>handleMessage\<close> reads.  \<open>scanHandler\<close> is \<open>None\<close>
  while no handler is set.  \<open>dbManager\<close> says whether a store is attached;
  \<open>managerWorkerID\<close> is the field \<open>workerID\<close>.
\<close>

record RabbitMQManager =
  managerWorkerID :: string
  scanHandler :: "scan_handler option"
  scanConfig :: ScanConfig
  dbManager :: bool

definition PublishScanResult :: "bus_env \<Rightarrow> ScanResult \<Rightarrow> event list \<times> string option" where
  "PublishScanResult env result =
     (let message = \<lparr>MsgScanResult = result, MsgTimestamp = unix_now env,
                     MsgWorkerID = ''port-scanner''\<rparr>;
          err = publish_result_error env message
      in ([PublishToScanResultQueue message err], err))"

definition PublishEnrichmentMessage ::
  "bus_env \<Rightarrow> string \<Rightarrow> bool \<Rightarrow> string \<Rightarrow> event list \<times> string option" where
  "PublishEnrichmentMessage env ip isUp batchID =
     (let message = \<lparr>EnrIP = ip, EnrIsUp = isUp, EnrBatchID = batchID,
                     EnrTimestamp = unix_now env\<rparr>;
          err = publish_enrichment_error env message
      in ([PublishToEnrichmentQueue message err], err))"

definition PublishServiceAnalysis ::
  "bus_env \<Rightarrow> string \<Rightarrow> Port list \<Rightarrow> string \<Rightarrow> event list \<times> string option" where
  "PublishServiceAnalysis env ip openPorts batchID =
     (let message = \<lparr>SvcIP = ip, SvcOpenPorts = openPorts, SvcBatchID = batchID,
                     SvcTimestamp = unix_now env\<rparr>;
          err = publish_service_error env message
      in ([PublishToServiceAnalysisQueue message err], err))"

text \<open>\<open>if r.dbManager != nil { SaveScanResult }\<close>; a failure to save is only logged.\<close>

definition saveIfAvailable :: "RabbitMQManager \<Rightarrow> ScanResult \<Rightarrow> event list" where
  "saveIfAvailable r result = (if dbManager r then [SaveScanResult result] else [])"

text \<open>
  The body of the loop \<open>for _, ip := range message.IPs\<close> of \<open>handleMessage\<close>, for one
  address; \<open>handler\<close> is the scan handler that is set.  Each \<open>continue\<close> of the source ends
  the list of events of the address.  The call of the handler comes before every event of
  the address, so an iteration whose scan panics or never returns has no event.
\<close>

definition handleIP ::
  "RabbitMQManager \<Rightarrow> bus_env \<Rightarrow> scan_handler \<Rightarrow> QueueMessage \<Rightarrow> string \<Rightarrow> event list outcome"
  where
  "handleIP r env handler message ip =
     (if ip = [] then Returns []
      else
        (case handler ip (scanConfig r) (BatchID message) (managerWorkerID r) of
           Panics \<Rightarrow> Panics
         | Blocks \<Rightarrow> Blocks
         | Returns (result, Some err) \<Rightarrow>
             (let failedResult =
                    \<lparr>IP = ip, IsUp = False, PingTime = 0, ScanStartTime = unix_now env,
                     ScanEndTime = unix_now env, Ports = [], Status = ScanStatusFailed,
                     Error = err, ScanBatchID = BatchID message, WorkerID = managerWorkerID r\<rparr>
              in Returns
                   (saveIfAvailable r failedResult
                    @ fst (PublishScanResult env failedResult)
                    @ fst (PublishEnrichmentMessage env ip False (BatchID message))))
         | Returns (result, None) \<Rightarrow>
             (let result = (if ScanBatchID result = [] then result\<lparr>ScanBatchID := BatchID message\<rparr>
                            else result)
              in Returns
                   (saveIfAvailable r result
                    @ (case PublishScanResult env result of
                         (published, Some err) \<Rightarrow> published
                       | (published, None) \<Rightarrow>
                           published
                           @ fst (PublishEnrichmentMessage env (IP result) (IsUp result)
                                    (ScanBatchID result))
                           @ (let openPorts = GetOpenPorts result
                              in if 0 < length openPorts
                                 then fst (PublishServiceAnalysis env (IP result) openPorts
                                             (ScanBatchID result))
                                 else []))))))"

text \<open>
  The loop over the addresses of a batch: the events so far, and \<open>Returns ()\<close> when the loop
  ran to its end; it stops at the first address whose scan panics or never returns.
\<close>

fun handleIPs ::
  "RabbitMQManager \<Rightarrow> bus_env \<Rightarrow> scan_handler \<Rightarrow> QueueMessage \<Rightarrow> string list
     \<Rightarrow> event list \<times> unit outcome" where
  "handleIPs r env handler message [] = ([], Returns ())"
| "handleIPs r env handler message (ip # ips) =
     (case handleIP r env handler message ip of
        Panics \<Rightarrow> ([], Panics)
      | Blocks \<Rightarrow> ([], Blocks)
      | Returns events \<Rightarrow>
          (case handleIPs r env handler message ips of
             (events', progress) \<Rightarrow> (events @ events', progress)))"

text \<open>
  \<open>handleMessage\<close> for one delivery with the given body: the events, and the error
  returned when the call returns.
\<close>

definition handleMessage ::
  "RabbitMQManager \<Rightarrow> bus_env \<Rightarrow> string \<Rightarrow> event list \<times> string option outcome" where
  "handleMessage r env body =
     (case unmarshal env body of
        Inl err \<Rightarrow> ([], Returns (Some err))
      | Inr message \<Rightarrow>
          if length (IPs message) = 0 then
            ([Ack False], Returns (Some ''no IP addresses in message''))
          else
            (case scanHandler r of
               None \<Rightarrow> ([], Returns (Some ''scan handler not configured''))
             | Some handler \<Rightarrow>
                 (case handleIPs r env handler message (IPs message) of
                    (events, Returns u) \<Rightarrow> (events @ [Ack False], Returns None)
                  | (events, Panics) \<Rightarrow> (events, Panics)
                  | (events, Blocks) \<Rightarrow> (events, Blocks))))"

text \<open>
  The goroutine \<open>ConsumeIPs\<close> starts: \<open>for msg := range msgs\<close>, each delivery handled by
  \<open>handleMessage\<close> and rejected with requeue when that returns an error.  The goroutine
  handles no further delivery once \<open>handleMessage\<close> panics or does not return.
\<close>

fun consumeLoop :: "RabbitMQManager \<Rightarrow> bus_env \<Rightarrow> string list \<Rightarrow> event list" where
  "consumeLoop r env [] = []"
| "consumeLoop r env (msg # msgs) =
     (case handleMessage r env msg of
        (events, Returns (Some err)) \<Rightarrow> events @ [Nack False True] @ consumeLoop r env msgs
      | (events, Returns None) \<Rightarrow> events @ consumeLoop r env msgs
      | (events, Panics) \<Rightarrow> events
      | (events, Blocks) \<Rightarrow> events)"

text \<open>
  \<open>ConsumeIPs\<close>, given the bodies of the deliveries that will arrive: the error it
  returns, and the events of the goroutine it started.  The parameter \<open>handler\<close> is the
  function passed by the caller.
\<close>

definition ConsumeIPs ::
  "RabbitMQManager \<Rightarrow> bus_env \<Rightarrow> (QueueMessage \<Rightarrow> event list \<times> string option outcome)
     \<Rightarrow> string list \<Rightarrow> string option \<times> event list" where
  "ConsumeIPs r env handler msgs =
     (case consume_error env of
        Some err \<Rightarrow> (Some (''failed to start consuming: '' @ err), [])
      | None \<Rightarrow> (None, consumeLoop r env msgs))"

text \<open>
  The scan handler \<open>cmd/server/main.go\<close> sets: \<open>scanner.ScanIP\<close>, the error given by its
  text.
\<close>

definition ScanIP_handler :: "scan_env \<Rightarrow> ScanConfig \<Rightarrow> scan_handler" where
  "ScanIP_handler senv scfg ip config batchID workerID =
     (case ScanIP senv scfg ip (Some config) batchID workerID of
        Returns (result, err) \<Rightarrow> Returns (result, map_option scan_error_text err)
      | Panics \<Rightarrow> Panics
      | Blocks \<Rightarrow> Blocks)"

section \<open>The scan engine (package application, ScanEngineService)\<close>

text \<open>
  The fields of \<open>ScanEngineService\<close> used below; \<open>engineScanIP\<close> is \<open>s.scanner.ScanIP\<close> as
  \<open>processMessage\<close> calls it, with an address and the configuration.
\<close>

record ScanEngineService =
  engineScanIP :: "string \<Rightarrow> ScanConfig \<Rightarrow> (ScanResult \<times> string option) outcome"
  engineConfig :: ScanConfig
  isRunning :: bool

text \<open>
  \<open>processMessage\<close> starts one goroutine per address, bounded by a semaphore of capacity
  \<open>s.config.Concurrency\<close>, and waits for all of them: a negative capacity panics, and with
  capacity zero every goroutine blocks on the semaphore.  The body of a goroutine is
  \<open>processMessageIP\<close>; the addresses are taken here in the order of the batch, which is one
  of the possible interleavings.  The update of the statistics is not an event.
\<close>

definition processMessageIP ::
  "ScanEngineService \<Rightarrow> bus_env \<Rightarrow> QueueMessage \<Rightarrow> string \<Rightarrow> event list" where
  "processMessageIP s env message ipAddr =
     (case engineScanIP s ipAddr (engineConfig s) of
        Panics \<Rightarrow> []
      | Blocks \<Rightarrow> []
      | Returns (result, Some err) \<Rightarrow> []
      | Returns (result, None) \<Rightarrow>
          fst (PublishScanResult env result)
          @ (if IsUp result
             then fst (PublishEnrichmentMessage env (IP result) True (BatchID message))
             else [])
          @ (let openPorts = GetOpenPorts result
             in if 0 < length openPorts
                then fst (PublishServiceAnalysis env (IP result) openPorts (BatchID message))
                else []))"

definition processMessage ::
  "ScanEngineService \<Rightarrow> bus_env \<Rightarrow> QueueMessage \<Rightarrow> event list \<times> string option outcome" where
  "processMessage s env message =
     (if Concurrency (engineConfig s) < 0 then ([], Panics)
      else if Concurrency (engineConfig s) = 0 \<and> IPs message \<noteq> [] then ([], Blocks)
      else
        (concat (map (processMessageIP s env message) (IPs message)),
         if list_ex (\<lambda>ipAddr. engineScanIP s ipAddr (engineConfig s) = Panics) (IPs message)
         then Panics
         else if list_ex (\<lambda>ipAddr. engineScanIP s ipAddr (engineConfig s) = Blocks) (IPs message)
         then Blocks
         else Returns None))"

text \<open>
  \<open>StartScanning\<close>: the error returned, the events of the consumer it registered, and the
  engine afterwards.
\<close>

definition StartScanning ::
  "ScanEngineService \<Rightarrow> RabbitMQManager \<Rightarrow> bus_env \<Rightarrow> string list
     \<Rightarrow> string option \<times> event list \<times> ScanEngineService" where
  "StartScanning s r env msgs =
     (if isRunning s then (Some ''scanning engine is already running'', [], s)
      else
        (case ConsumeIPs r env (processMessage s env) msgs of
           (Some err, events) \<Rightarrow>
             (Some (''failed to start consuming messages: '' @ err), [], s)
         | (None, events) \<Rightarrow> (None, events, s\<lparr>isRunning := True\<rparr>)))"

text \<open>
  The call of \<open>ScanIP\<close> that \<open>handleMessage\<close> makes for an address of a batch when the
  handler is \<open>ScanIP_handler\<close>.
\<close>

definition batch_scan ::
  "scan_env \<Rightarrow> ScanConfig \<Rightarrow> RabbitMQManager \<Rightarrow> QueueMessage \<Rightarrow> string
     \<Rightarrow> (ScanResult \<times> scan_error option) outcome" where
  "batch_scan senv scfg r message ip =
     ScanIP senv scfg ip (Some (scanConfig r)) (BatchID message) (managerWorkerID r)"

text \<open>
  The enrichment, service-analysis and scan-result messages that were published, that is
  accepted by their queue, among some events.
\<close>

fun enrichments :: "event list \<Rightarrow> EnrichmentMessage list" where
  "enrichments [] = []"
| "enrichments (PublishToEnrichmentQueue m None # es) = m # enrichments es"
| "enrichments (e # es) = enrichments es"

fun service_analyses :: "event list \<Rightarrow> ServiceAnalysisMessage list" where
  "service_analyses [] = []"
| "service_analyses (PublishToServiceAnalysisQueue m None # es) = m # service_analyses es"
| "service_analyses (e # es) = service_analyses es"

fun scan_results :: "event list \<Rightarrow> ScanResult list" where
  "scan_results [] = []"
| "scan_results (PublishToScanResultQueue m None # es) = MsgScanResult m # scan_results es"
| "scan_results (e # es) = scan_results es"

text \<open>
  Whether a call returned, and the events of an iteration that returned (none otherwise);
  both are used to state how the iterations of the loop follow each other.
\<close>

definition returned :: "'a outcome \<Rightarrow> bool" where
  "returned x = (case x of Returns v \<Rightarrow> True | Panics \<Rightarrow> False | Blocks \<Rightarrow> False)"

definition events_of :: "event list outcome \<Rightarrow> event list" where
  "events_of x = (case x of Returns events \<Rightarrow> events | Panics \<Rightarrow> [] | Blocks \<Rightarrow> [])"

section \<open>Example environments\<close>

text \<open>
  A network in which the error of the ping command itself reports total packet loss; a
  network in which the host answers and only port 80 accepts connections; a network in
  which no reply arrives, as the command reports it to the program: \<open>ping -c 1\<close> prints its
  statistics to standard output and exits with status 1, and \<open>cmd.Run\<close> returns the error
  \<open>exit status 1\<close>; and a network in which 192.0.2.1 answers, with port 80 open, and no
  reply arrives from any other address.
\<close>

definition env_down :: scan_env where
  "env_down =
     \<lparr>run_ping = (\<lambda>ip. \<lparr>RunErr = Some ''1 packets transmitted, 0 received, 100% packet loss'',
                          RunDuration = 7, CtxErr = None, RunOutput = []\<rparr>),
      dial = (\<lambda>ip port. (True, 1)),
      get_banner = (\<lambda>ip port.
         (\<lparr>RawBanner = [], Service = ''unknown'', Protocol = ''tcp'', Version = [],
           Confidence = ''port'', Metadata = []\<rparr>, None)),
      finish_order = (\<lambda>ip. []),
      clock = 1000\<rparr>"

definition env_up :: scan_env where
  "env_up =
     \<lparr>run_ping = (\<lambda>ip. \<lparr>RunErr = None, RunDuration = 7, CtxErr = None,
                          RunOutput = ''1 packets transmitted, 1 received, 0% packet loss''\<rparr>),
      dial = (\<lambda>ip port. (port = 80, 1)),
      get_banner = (\<lambda>ip port.
         (\<lparr>RawBanner = ''Server: nginx/1.24.0'', Service = ''http'', Protocol = ''tcp'',
           Version = ''1.24.0'', Confidence = ''banner'', Metadata = []\<rparr>, None)),
      finish_order = (\<lambda>ip. []),
      clock = 1000\<rparr>"

definition no_reply :: cmd_outcome where
  "no_reply =
     \<lparr>RunErr = Some ''exit status 1'', RunDuration = 7, CtxErr = None,
      RunOutput = ''1 packets transmitted, 0 received, 100% packet loss, time 0ms''\<rparr>"

definition env_no_reply :: scan_env where
  "env_no_reply = env_up\<lparr>run_ping := (\<lambda>ip. no_reply)\<rparr>"

definition env_mixed :: scan_env where
  "env_mixed =
     env_up\<lparr>run_ping := (\<lambda>ip. if ip = ''192.0.2.1'' then run_ping env_up ip else no_reply),
            finish_order := (\<lambda>ip. [1])\<rparr>"

text \<open>
  Batches of two addresses, of one empty entry, and of two addresses with an empty entry
  between them; a bus that decodes a body to one of them and accepts every message; a
  manager set up as the service does, scanning ports 22 and 80.
\<close>

definition two_ip_batch :: QueueMessage where
  "two_ip_batch = \<lparr>IPs = [''192.0.2.1'', ''192.0.2.2''], BatchID = ''batch-17-0'', Count = 2\<rparr>"

definition mixed_batch :: QueueMessage where
  "mixed_batch =
     \<lparr>IPs = [''192.0.2.1'', [], ''192.0.2.2''], BatchID = ''batch-17-0'', Count = 3\<rparr>"

definition bus_ok :: bus_env where
  "bus_ok =
     \<lparr>consume_error = None,
      unmarshal = (\<lambda>body. if body = ''two'' then Inr two_ip_batch
                           else if body = ''blank'' then Inr (two_ip_batch\<lparr>IPs := [[]], Count := 1\<rparr>)
                           else if body = ''mixed'' then Inr mixed_batch
                           else Inl ''invalid character''),
      save_error = (\<lambda>result. None),
      publish_result_error = (\<lambda>message. None),
      publish_enrichment_error = (\<lambda>message. None),
      publish_service_error = (\<lambda>message. None),
      unix_now = 1700000000\<rparr>"

definition example_config :: ScanConfig where
  "example_config = NewDefaultScanConfig\<lparr>PortRange := [22, 80]\<rparr>"

definition manager_of :: "scan_env \<Rightarrow> RabbitMQManager" where
  "manager_of senv =
     \<lparr>managerWorkerID = ''worker-1'',
      scanHandler = Some (ScanIP_handler senv example_config),
      scanConfig = example_config,
      dbManager = True\<rparr>"

text \<open>
  What the scans of the third network return for the manager above: the answering host
  with port 80 open and port 22 closed, the goroutine of port 80 finishing first; for
  every other address the failed scan of a host from which no reply arrives.
\<close>

definition scan_answered :: ScanResult where
  "scan_answered =
     \<lparr>IP = ''192.0.2.1'', IsUp = True, PingTime = 7, ScanStartTime = 1000, ScanEndTime = 1000,
      Ports =
        [\<lparr>Number = 80, PortStatus = PortStatusOpen, PortService = ''http'',
          Banner = ''Server: nginx/1.24.0'', PortVersion = ''1.24.0'', ScanTime = 1000,
          ResponseTime = 1,
          PortBannerInfo =
            Some \<lparr>RawBanner = ''Server: nginx/1.24.0'', Service = ''http'', Protocol = ''tcp'',
                  Version = ''1.24.0'', Confidence = ''banner'', Metadata = []\<rparr>\<rparr>,
         \<lparr>Number = 22, PortStatus = PortStatusClosed, PortService = [], Banner = [],
          PortVersion = [], ScanTime = 1000, ResponseTime = 1, PortBannerInfo = None\<rparr>],
      Status = ScanStatusCompleted, Error = [], ScanBatchID = ''batch-17-0'',
      WorkerID = ''worker-1''\<rparr>"

definition scan_unanswered :: "string \<Rightarrow> ScanResult" where
  "scan_unanswered ip =
     \<lparr>IP = ip, IsUp = False, PingTime = 0, ScanStartTime = 1000, ScanEndTime = 1000,
      Ports = [], Status = ScanStatusFailed,
      Error = ''ping failed: ping failed: exit status 1'', ScanBatchID = ''batch-17-0'',
      WorkerID = ''worker-1''\<rparr>"

definition mixed_scan :: "string \<Rightarrow> ScanResult \<times> scan_error option" where
  "mixed_scan ip =
     (if ip = ''192.0.2.1'' then (scan_answered, None)
      else (scan_unanswered ip, Some (PingErr (PingFailed ''exit status 1''))))"

text \<open>An engine whose scanner sees the network in which the host answers.\<close>

definition example_engine :: ScanEngineService where
  "example_engine =
     \<lparr>engineScanIP = (\<lambda>ip config. ScanIP_handler env_up example_config ip config [] []),
      engineConfig = example_config, isRunning = False\<rparr>"

text \<open>
  An output of three documents and a line that does not decode; the second and the third
  document score the same.
\<close>

definition doc_banner :: BannerInfo where
  "doc_banner =
     \<lparr>RawBanner = ''SSH-2.0-OpenSSH_8.9'', Service = ''ssh'', Protocol = ''tcp'',
      Version = ''8.9'', Confidence = ''banner'', Metadata = []\<rparr>"

definition doc_probe_first :: BannerInfo where
  "doc_probe_first =
     \<lparr>RawBanner = ''SSH-2.0-OpenSSH_8.9'', Service = ''ssh'', Protocol = ''tcp'',
      Version = ''8.9'', Confidence = ''zgrab2'', Metadata = [(''ssh'', ''{}'')]\<rparr>"

definition doc_probe_second :: BannerInfo where
  "doc_probe_second =
     \<lparr>RawBanner = ''SSH-2.0-OpenSSH_8.9p1'', Service = ''ssh'', Protocol = ''tcp'',
      Version = ''8.9p1'', Confidence = ''zgrab2'', Metadata = [(''tls'', ''{}'')]\<rparr>"

definition analyse_example :: "string \<Rightarrow> BannerInfo option" where
  "analyse_example line =
     (if line = ''{1}'' then Some doc_banner
      else if line = ''{2}'' then Some doc_probe_first
      else if line = ''{3}'' then Some doc_probe_second
      else None)"

definition output_example :: string where
  "output_example = ''{1}'' @ [CHR 0x0A] @ ''{2}'' @ [CHR 0x0A] @ ''oops'' @ [CHR 0x0A] @ ''{3}''
                    @ [CHR 0x0A]"

section \<open>Properties of the permutation\<close>

lemma unshift16: "(y XOR drop_bit 16 y) XOR drop_bit 16 (y XOR drop_bit 16 y) = (y::u32)"
  by (rule bit_word_eqI) (auto simp: bit_simps)

lemma unshift13:
  "(y XOR drop_bit 13 y) XOR drop_bit 13 (y XOR drop_bit 13 y)
     XOR drop_bit 26 (y XOR drop_bit 13 y) = (y::u32)"
  by (rule bit_word_eqI) (auto simp: bit_simps)

lemma unmul_prime: "x * 0x7fffffff * 0x7fffffff = (x::u32)"
proof -
  have "(0x7fffffff * 0x7fffffff :: u32) = 1" by simp
  then show ?thesis by (simp only: mult.assoc mult_1_right)
qed

lemma unmul_c1: "x * 0x85ebca6b * 0xa5cb9243 = (x::u32)"
proof -
  have "(0x85ebca6b * 0xa5cb9243 :: u32) = 1" by simp
  then show ?thesis by (simp only: mult.assoc mult_1_right)
qed

lemma unmul_c2: "x * 0xc2b2ae35 * 0x7ed1b41d = (x::u32)"
proof -
  have "(0xc2b2ae35 * 0x7ed1b41d :: u32) = 1" by simp
  then show ?thesis by (simp only: mult.assoc mult_1_right)
qed

lemma xor_seed_cancel: "(x XOR s) XOR s = (x::u32)"
  by (simp add: xor.assoc)

lemma unpermute32_permute32: "unpermute32 seed (permute32 seed x) = x"
  unfolding permute32_def unpermute32_def Let_def
  by (simp only: unshift16 unmul_c2 unshift13 unmul_c1 xor_seed_cancel unmul_prime)

lemma permute32_inj: "inj (permute32 seed)"
  by (rule inj_on_inverseI [where g = "unpermute32 seed"]) (rule unpermute32_permute32)

lemma permute32_bij: "bij (permute32 seed)"
proof -
  have "surj (permute32 seed)"
    by (rule finite_UNIV_inj_surj) (simp_all add: permute32_inj)
  with permute32_inj show ?thesis by (simp add: bij_def)
qed

text \<open>
  Claim C3.  For every seed, \<open>permute32\<close> is a bijection on the 32-bit unsigned integers:
  equal images have equal arguments, every 32-bit value is an image, and the image of
  any set of 32-bit integers has the cardinality of the set.
\<close>

theorem permute32_bijective:
  "bij (permute32 seed)
   \<and> (\<forall>x y. permute32 seed x = permute32 seed y \<longrightarrow> x = y)
   \<and> (\<forall>S. card (permute32 seed ` S) = card S)"
proof (intro conjI allI impI)
  show "bij (permute32 seed)" by (rule permute32_bij)
next
  fix x y assume "permute32 seed x = permute32 seed y"
  then show "x = y" using permute32_inj [of seed] by (simp add: inj_def)
next
  fix S show "card (permute32 seed ` S) = card S"
    by (rule card_image) (rule inj_on_subset [OF permute32_inj subset_UNIV])
qed

theorem permute32_bijective_witness:
  "permute32 0xDEADBEEF 5 = permute32 0xDEADBEEF 5 \<and> (5::u32) = 5
   \<and> card (permute32 0xDEADBEEF ` {1, 2, 3}) = card {1, 2, 3 :: u32}"
  using permute32_bijective [of "0xDEADBEEF"] by blast


section \<open>Properties of the address enumerator\<close>

subsection \<open>Rendering and parsing\<close>

lemma digit_char_simps: "n < 10 \<Longrightarrow> of_char (digit_char n) = 48 + n"
  by (simp add: digit_char_def)

lemma is_digit_digit_char: "n < 10 \<Longrightarrow> is_digit (digit_char n)"
  by (simp add: is_digit_def digit_char_simps)

lemma digit_char_not_dot: "n < 10 \<Longrightarrow> digit_char n \<noteq> CHR ''.''"
proof
  assume n: "n < 10" and "digit_char n = CHR ''.''"
  then have "(of_char (digit_char n) :: nat) = of_char CHR ''.''" by simp
  with n show False by (simp add: digit_char_simps)
qed

lemma itoa_nonempty: "itoa n \<noteq> []"
  by (subst itoa.simps) simp

lemma itoa_digits: "list_all is_digit (itoa n)"
  by (induction n rule: itoa.induct) (subst itoa.simps, simp add: is_digit_digit_char)

lemma itoa_no_dot: "CHR ''.'' \<notin> set (itoa n)"
  by (induction n rule: itoa.induct)
     (subst itoa.simps, auto simp: digit_char_not_dot [symmetric])

lemma dec_val_snoc: "dec_val (s @ [ch]) = dec_val s * 10 + (of_char ch - 48)"
  by (simp add: dec_val_def)

lemma dec_val_itoa: "dec_val (itoa n) = n"
proof (induction n rule: itoa.induct)
  case (1 n)
  show ?case
  proof (cases "n < 10")
    case True
    then show ?thesis by (subst itoa.simps) (simp add: dec_val_def digit_char_simps)
  next
    case False
    with 1 show ?thesis
      by (subst itoa.simps) (simp add: dec_val_snoc digit_char_simps)
  qed
qed

lemma itoa_hd: "0 < n \<Longrightarrow> hd (itoa n) \<noteq> CHR ''0''"
proof (induction n rule: itoa.induct)
  case (1 n)
  show ?case
  proof (cases "n < 10")
    case True
    have "(of_char (digit_char n) :: nat) \<noteq> of_char CHR ''0''"
      using True 1(2) by (simp add: digit_char_simps)
    then have "digit_char n \<noteq> CHR ''0''" by auto
    with True show ?thesis by (subst itoa.simps) simp
  next
    case False
    then have "0 < n div 10" by simp
    with 1(1) False have "hd (itoa (n div 10)) \<noteq> CHR ''0''" by simp
    with False show ?thesis
      by (subst itoa.simps) (simp add: itoa_nonempty)
  qed
qed

lemma itoa_zero: "itoa 0 = ''0''"
proof -
  have "(of_char (digit_char 0) :: nat) = of_char CHR ''0''"
    by (simp add: digit_char_simps)
  then have "digit_char 0 = CHR ''0''" by (simp only: of_char_eq_iff)
  then show ?thesis by (subst itoa.simps) simp
qed

lemma itoa_leading: "1 < length (itoa n) \<Longrightarrow> hd (itoa n) \<noteq> CHR ''0''"
  by (cases "n = 0") (simp_all add: itoa_zero itoa_hd)

lemma parse_octet_itoa: "parse_octet (itoa (unat (x::u8))) = Some x"
  using unat_u8_lt [of x] itoa_leading [of "unat x"]
  by (auto simp add: parse_octet_def itoa_nonempty itoa_digits dec_val_itoa)

lemma split_on_no_sep: "sep \<notin> set f \<Longrightarrow> split_on sep f = [f]"
  by (induction f) auto

lemma split_on_append: "sep \<notin> set f \<Longrightarrow> split_on sep (f @ sep # rest) = f # split_on sep rest"
  by (induction f) auto

lemma ParseIP_IP_String: "ParseIP (IP_String ip) = Some ip"
proof -
  obtain a b c d where ip: "ip = (a, b, c, d)" by (cases ip) auto
  have "split_on CHR ''.'' (IP_String ip)
        = [itoa (unat a), itoa (unat b), itoa (unat c), itoa (unat d)]"
    by (simp add: IP_String_def ip split_on_append split_on_no_sep itoa_no_dot)
  then show ?thesis
    by (simp add: ParseIP_def parse_octet_itoa ip)
qed

subsection \<open>Arithmetic on addresses\<close>

lemma base256_inj:
  "q * 256 + d = q' * 256 + d' \<Longrightarrow> d < 256 \<Longrightarrow> d' < (256::nat) \<Longrightarrow> q = q' \<and> d = d'"
proof -
  assume e: "q * 256 + d = q' * 256 + d'" and d: "d < 256" and d': "d' < 256"
  have "(q * 256 + d) div 256 = q" using d by simp
  moreover have "(q' * 256 + d') div 256 = q'" using d' by simp
  ultimately have q: "q = q'" using e by simp
  with e show ?thesis by simp
qed

lemma ipNat_horner:
  "ipNat (a, b, c, d) = ((unat a * 256 + unat b) * 256 + unat c) * 256 + unat d"
  by (simp add: ipNat_def)

lemma ipNat_inj: "ipNat ip = ipNat ip' \<Longrightarrow> ip = ip'"
proof -
  assume eq: "ipNat ip = ipNat ip'"
  obtain a b c d where ip: "ip = (a, b, c, d)" by (cases ip) auto
  obtain a' b' c' d' where ip': "ip' = (a', b', c', d')" by (cases ip') auto
  from eq have e0: "((unat a * 256 + unat b) * 256 + unat c) * 256 + unat d
      = ((unat a' * 256 + unat b') * 256 + unat c') * 256 + unat d'"
    by (simp only: ip ip' ipNat_horner)
  from base256_inj [OF e0 unat_u8_lt unat_u8_lt]
  have e1: "(unat a * 256 + unat b) * 256 + unat c = (unat a' * 256 + unat b') * 256 + unat c'"
    and d: "unat d = unat d'" by simp_all
  from base256_inj [OF e1 unat_u8_lt unat_u8_lt]
  have e2: "unat a * 256 + unat b = unat a' * 256 + unat b'"
    and c: "unat c = unat c'" by simp_all
  from base256_inj [OF e2 unat_u8_lt unat_u8_lt]
  have "unat a = unat a'" and "unat b = unat b'" by simp_all
  with c d show ?thesis by (simp add: ip ip' word_unat_eq_iff)
qed
lemma div_eq_range: "0 < k \<Longrightarrow> (n div k = q) = (q * k \<le> n \<and> n < Suc q * (k::nat))"
proof
  assume k: "0 < k" and "n div k = q"
  then show "q * k \<le> n \<and> n < Suc q * k"
    using div_times_less_eq_dividend [of n k] dividend_less_div_times [of k n] by (auto simp: algebra_simps)
next
  assume k: "0 < k" and "q * k \<le> n \<and> n < Suc q * k"
  then show "n div k = q" by (intro div_nat_eqI) (simp_all add: algebra_simps)
qed

lemma in_cidr_nat:
  "in_cidr base len addr \<longleftrightarrow> unat addr div 2 ^ (32 - len) = unat base div 2 ^ (32 - len)"
proof -
  have "in_cidr base len addr
        \<longleftrightarrow> unat (drop_bit (32 - len) addr) = unat (drop_bit (32 - len) base)"
    by (simp only: in_cidr_def word_unat_eq_iff)
  also have "\<dots> \<longleftrightarrow> drop_bit (32 - len) (unat addr) = drop_bit (32 - len) (unat base)"
    by (simp only: unat_drop_bit_eq)
  finally show ?thesis by (simp only: drop_bit_eq_div)
qed


lemma valid_iff_not_excluded: "isValidPublicIP ip \<longleftrightarrow> \<not> in_excluded_range (ipUint ip)"
  using ipNat_lt [of ip]
  by (simp add: isValidPublicIP_nat in_excluded_range_def excluded_ranges_def in_cidr_nat
      unat_ipUint div_eq_range validNat_def) arith

subsection \<open>The skipping loop\<close>

lemma skipInvalid_valid: "isValidPublicIP (skipInvalid ip)"
  by (induction ip rule: skipInvalid.induct) (subst skipInvalid.simps, simp)

lemma skipInvalid_id: "isValidPublicIP ip \<Longrightarrow> skipInvalid ip = ip"
  by (subst skipInvalid.simps) simp

lemma skipInvalid_block:
  assumes "\<forall>n. ipNat ip \<le> n \<and> n < hi \<longrightarrow> \<not> validNat n"
    and "ipNat ip \<le> hi" and "validNat hi" and "hi < 4294967296"
  shows "ipNat (skipInvalid ip) = hi"
  using assms
proof (induction "hi - ipNat ip" arbitrary: ip)
  case 0
  then have "ipNat ip = hi" by simp
  with 0 show ?case by (simp add: skipInvalid_id isValidPublicIP_nat)
next
  case (Suc k)
  then have lt: "ipNat ip < hi" by simp
  with Suc.prems have inv: "\<not> isValidPublicIP ip" by (simp add: isValidPublicIP_nat)
  have nx: "ipNat (incIP ip) = ipNat ip + 1"
    using lt Suc.prems(4) by (simp add: ipNat_incIP)
  have "ipNat (skipInvalid (incIP ip)) = hi"
  proof (rule Suc.hyps(1))
    show "k = hi - ipNat (incIP ip)" using Suc.hyps(2) nx by simp
    show "\<forall>n. ipNat (incIP ip) \<le> n \<and> n < hi \<longrightarrow> \<not> validNat n"
      using Suc.prems(1) nx by simp
    show "ipNat (incIP ip) \<le> hi" using lt nx by simp
  qed (use Suc.prems in simp_all)
  with inv show ?case by (subst skipInvalid.simps) simp
qed

lemma skipInvalid_10: "skipInvalid (10, 0, 0, 0) = (11, 0, 0, 0)"
proof -
  have "ipNat (skipInvalid (10, 0, 0, 0)) = 184549376"
    by (rule skipInvalid_block) (simp_all add: ipNat_def validNat_def)
  also have "\<dots> = ipNat (11, 0, 0, 0)" by (simp add: ipNat_def)
  finally show ?thesis by (rule ipNat_inj)
qed

lemma NewIPAddress_IP_String: "NewIPAddress (IP_String ip) = Inr \<lparr>Address = IP_String ip\<rparr>"
  by (simp add: NewIPAddress_def isValidIPv4_def ParseIP_IP_String)
lemma sequentialLoop_eval:
  "sequentialLoop ip (Suc k) =
     (case sequentialLoop (incIP (skipInvalid ip)) k of
        Inl err \<Rightarrow> Inl err
      | Inr ips \<Rightarrow> Inr (\<lparr>Address = IP_String (skipInvalid ip)\<rparr> # ips))"
  by (simp add: NewIPAddress_IP_String Let_def)

lemma emitted_ok_IP_String: "isValidPublicIP ip \<Longrightarrow> emitted_ok \<lparr>Address = IP_String ip\<rparr>"
  unfolding emitted_ok_def by (rule exI [of _ ip]) simp

lemma sequentialLoop_total:
  "\<exists>ips. sequentialLoop ip k = Inr ips \<and> length ips = k \<and> list_all emitted_ok ips"
proof (induction k arbitrary: ip)
  case 0
  show ?case by simp
next
  case (Suc k)
  from Suc [of "incIP (skipInvalid ip)"] obtain ips where
    ips: "sequentialLoop (incIP (skipInvalid ip)) k = Inr ips" "length ips = k"
    "list_all emitted_ok ips" by blast
  have "sequentialLoop ip (Suc k) = Inr (\<lparr>Address = IP_String (skipInvalid ip)\<rparr> # ips)"
    by (simp only: sequentialLoop_eval ips sum.case)
  moreover have "list_all emitted_ok (\<lparr>Address = IP_String (skipInvalid ip)\<rparr> # ips)"
    using ips(3) emitted_ok_IP_String [OF skipInvalid_valid [of ip]] by simp
  ultimately show ?case using ips(2) by simp
qed

subsection \<open>The random loop\<close>

lemma randomLoop_stop:
  "\<not> (int (length ips) < count \<and> attempts < maxAttempts) \<Longrightarrow>
   randomLoop seed rnd count maxAttempts ips generated attempts pos = (ips, pos)"
  by (subst randomLoop.simps) (rule if_not_P)

lemma randomLoop_duplicate:
  "int (length ips) < count \<Longrightarrow> attempts < maxAttempts \<Longrightarrow>
   generated (permute32 seed (rnd pos)) \<Longrightarrow>
   randomLoop seed rnd count maxAttempts ips generated attempts pos
     = randomLoop seed rnd count maxAttempts ips generated (attempts + 1) (Suc pos)"
  by (subst randomLoop.simps) simp

lemma randomLoop_excluded:
  "int (length ips) < count \<Longrightarrow> attempts < maxAttempts \<Longrightarrow>
   \<not> generated (permute32 seed (rnd pos)) \<Longrightarrow>
   \<not> isValidPublicIP (ipBytes (permute32 seed (rnd pos))) \<Longrightarrow>
   randomLoop seed rnd count maxAttempts ips generated attempts pos
     = randomLoop seed rnd count maxAttempts ips generated (attempts + 1) (Suc pos)"
  by (subst randomLoop.simps) simp

lemma randomLoop_accept:
  "int (length ips) < count \<Longrightarrow> attempts < maxAttempts \<Longrightarrow>
   \<not> generated (permute32 seed (rnd pos)) \<Longrightarrow>
   isValidPublicIP (ipBytes (permute32 seed (rnd pos))) \<Longrightarrow>
   randomLoop seed rnd count maxAttempts ips generated attempts pos
     = randomLoop seed rnd count maxAttempts
         (ips @ [\<lparr>Address = IP_String (ipBytes (permute32 seed (rnd pos)))\<rparr>])
         (generated(permute32 seed (rnd pos) := True)) (attempts + 1) (Suc pos)"
  by (subst randomLoop.simps) (simp add: NewIPAddress_IP_String Let_def)

lemma randomLoop_invariant:
  assumes init: "P ips"
    and step: "\<And>ips ip. P ips \<Longrightarrow> isValidPublicIP ip \<Longrightarrow> int (length ips) < count
                 \<Longrightarrow> P (ips @ [\<lparr>Address = IP_String ip\<rparr>])"
  shows "P (fst (randomLoop seed rnd count maxAttempts ips generated attempts pos))"
  using init
proof (induction "nat (maxAttempts - attempts)" arbitrary: ips generated attempts pos
    rule: less_induct)
  case less
  show ?case
  proof (cases "int (length ips) < count \<and> attempts < maxAttempts")
    case False
    from randomLoop_stop [OF False] less.prems show ?thesis by simp
  next
    case True
    then have c: "int (length ips) < count" "attempts < maxAttempts" by simp_all
    then have m: "nat (maxAttempts - (attempts + 1)) < nat (maxAttempts - attempts)" by simp
    show ?thesis
    proof (cases "generated (permute32 seed (rnd pos))")
      case g: True
      have "randomLoop seed rnd count maxAttempts ips generated attempts pos
            = randomLoop seed rnd count maxAttempts ips generated (attempts + 1) (Suc pos)"
        using c g by (rule randomLoop_duplicate)
      then show ?thesis using less.hyps [OF m less.prems] by simp
    next
      case g: False
      show ?thesis
      proof (cases "isValidPublicIP (ipBytes (permute32 seed (rnd pos)))")
        case v: False
        have "randomLoop seed rnd count maxAttempts ips generated attempts pos
              = randomLoop seed rnd count maxAttempts ips generated (attempts + 1) (Suc pos)"
          using c g v by (rule randomLoop_excluded)
        then show ?thesis using less.hyps [OF m less.prems] by simp
      next
        case v: True
        have "randomLoop seed rnd count maxAttempts ips generated attempts pos
              = randomLoop seed rnd count maxAttempts
                  (ips @ [\<lparr>Address = IP_String (ipBytes (permute32 seed (rnd pos)))\<rparr>])
                  (generated(permute32 seed (rnd pos) := True)) (attempts + 1) (Suc pos)"
          using c g v by (rule randomLoop_accept)
        then show ?thesis
          using less.hyps [OF m step [OF less.prems v c(1)]] by simp
      qed
    qed
  qed
qed

lemma randomLoop_emitted_ok:
  "list_all emitted_ok (fst (randomLoop seed rnd count maxAttempts [] generated attempts pos))"
  by (rule randomLoop_invariant) (simp_all add: emitted_ok_IP_String)

lemma randomLoop_length:
  "0 \<le> count \<Longrightarrow>
   int (length (fst (randomLoop seed rnd count maxAttempts [] generated attempts pos))) \<le> count"
  by (rule randomLoop_invariant) simp_all

text \<open>
  The map \<open>generated\<close> makes the accepted 32-bit values pairwise different, so one call
  cannot return more addresses than there are 32-bit values: a request for more fails
  whatever the random source draws.
\<close>

lemma randomLoop_distinct_values:
  assumes "distinct vs" and "length vs = length ips" and "\<forall>v \<in> set vs. generated v"
  shows "\<exists>vs' :: u32 list. distinct vs' \<and> length vs'
           = length (fst (randomLoop seed rnd count maxAttempts ips generated attempts pos))"
  using assms
proof (induction "nat (maxAttempts - attempts)" arbitrary: ips generated attempts pos vs
    rule: less_induct)
  case less
  show ?case
  proof (cases "int (length ips) < count \<and> attempts < maxAttempts")
    case False
    have s: "fst (randomLoop seed rnd count maxAttempts ips generated attempts pos) = ips"
      using randomLoop_stop [OF False, of seed rnd generated pos] by simp
    show ?thesis unfolding s using less.prems(1,2) by blast
  next
    case True
    then have c: "int (length ips) < count" "attempts < maxAttempts" by simp_all
    then have m: "nat (maxAttempts - (attempts + 1)) < nat (maxAttempts - attempts)" by simp
    let ?v = "permute32 seed (rnd pos)"
    show ?thesis
    proof (cases "generated ?v \<or> \<not> isValidPublicIP (ipBytes ?v)")
      case skip: True
      have "randomLoop seed rnd count maxAttempts ips generated attempts pos
            = randomLoop seed rnd count maxAttempts ips generated (attempts + 1) (Suc pos)"
        using c skip randomLoop_duplicate [of ips count attempts maxAttempts generated seed rnd pos]
          randomLoop_excluded [of ips count attempts maxAttempts generated seed rnd pos]
        by blast
      then show ?thesis using less.hyps [OF m less.prems] by simp
    next
      case acc: False
      have eq: "randomLoop seed rnd count maxAttempts ips generated attempts pos
            = randomLoop seed rnd count maxAttempts
                (ips @ [\<lparr>Address = IP_String (ipBytes ?v)\<rparr>])
                (generated(?v := True)) (attempts + 1) (Suc pos)"
        using c acc by (intro randomLoop_accept) simp_all
      have fresh: "?v \<notin> set vs" using less.prems(3) acc by blast
      have d: "distinct (vs @ [?v])" using less.prems(1) fresh by simp
      have l: "length (vs @ [?v]) = length (ips @ [\<lparr>Address = IP_String (ipBytes ?v)\<rparr>])"
        using less.prems(2) by simp
      have g: "\<forall>w \<in> set (vs @ [?v]). (generated(?v := True)) w"
        using less.prems(3) by simp
      from less.hyps [where generated = "generated(?v := True)" and attempts = "attempts + 1"
          and pos = "Suc pos", OF m d l g]
      show ?thesis using eq by simp
    qed
  qed
qed

lemma randomLoop_at_most_address_space:
  "length (fst (randomLoop seed rnd count maxAttempts [] (\<lambda>_. False) attempts pos)) \<le> 4294967296"
proof -
  from randomLoop_distinct_values [of "[]" "[]" "\<lambda>_. False" seed rnd count maxAttempts attempts pos]
  obtain vs' :: "u32 list" where vs': "distinct vs'"
    "length vs' = length (fst (randomLoop seed rnd count maxAttempts [] (\<lambda>_. False) attempts pos))"
    by auto
  have "length vs' = card (set vs')" using vs'(1) by (simp add: distinct_card)
  also have "\<dots> \<le> card (UNIV :: u32 set)" by (rule card_mono) simp_all
  also have "\<dots> = 4294967296" by (simp add: card_word)
  finally show ?thesis using vs'(2) by simp
qed

lemma GenerateRandomIPs_exhausted:
  assumes "4294967296 < count"
  shows "\<exists>n. fst (GenerateRandomIPs seed rnd pos count) = Inl (CouldOnlyGenerate n count)"
proof -
  obtain ips pos' where
    r: "randomLoop seed rnd count (wrap64 (count * 100)) [] (\<lambda>_. False) 0 pos = (ips, pos')"
    by (cases "randomLoop seed rnd count (wrap64 (count * 100)) [] (\<lambda>_. False) 0 pos") auto
  have "length ips \<le> 4294967296"
    using randomLoop_at_most_address_space [of seed rnd count "wrap64 (count * 100)" 0 pos] r
    by simp
  with assms have "int (length ips) < count" by simp
  then show ?thesis by (simp add: GenerateRandomIPs_def r)
qed

lemma emitted_ok_outside: "emitted_ok a \<Longrightarrow> outside_excluded a"
  by (auto simp: emitted_ok_def outside_excluded_def ParseIP_IP_String valid_iff_not_excluded)

lemma list_all_outside: "list_all emitted_ok ips \<Longrightarrow> list_all outside_excluded ips"
  by (induction ips) (simp_all add: emitted_ok_outside)

text \<open>
  Claim C4.  Every address emitted by the enumerator lies outside 0.0.0.0/8, 10.0.0.0/8,
  127.0.0.0/8, 192.168.0.0/16, 224.0.0.0/4 and 240.0.0.0/4: in random mode whenever the
  call returns addresses, in sequential mode for every starting text that parses, and
  for every four-byte starting address, from which sequential mode always returns
  exactly the requested number of addresses.
\<close>

theorem enumerator_avoids_excluded_ranges:
  "(fst (GenerateRandomIPs seed rnd pos count) = Inr ips \<longrightarrow> list_all outside_excluded ips)
   \<and> (GenerateSequentialIPs startIP count = Inr ips \<longrightarrow> list_all outside_excluded ips)
   \<and> (\<exists>ips'. sequentialLoop ip k = Inr ips' \<and> length ips' = k
          \<and> list_all outside_excluded ips')"
proof (intro conjI impI)
  assume r: "fst (GenerateRandomIPs seed rnd pos count) = Inr ips"
  have "list_all emitted_ok
          (fst (randomLoop seed rnd count (wrap64 (count * 100)) [] (\<lambda>_. False) 0 pos))"
    by (rule randomLoop_emitted_ok)
  with r have "list_all emitted_ok ips"
    by (auto simp: GenerateRandomIPs_def Let_def split: prod.splits if_splits)
  then show "list_all outside_excluded ips" by (rule list_all_outside)
next
  assume s: "GenerateSequentialIPs startIP count = Inr ips"
  then obtain ip0 where "sequentialLoop ip0 (nat count) = Inr ips"
    by (auto simp: GenerateSequentialIPs_def split: option.splits)
  with sequentialLoop_total [of ip0 "nat count"] have "list_all emitted_ok ips" by auto
  then show "list_all outside_excluded ips" by (rule list_all_outside)
next
  from sequentialLoop_total [of ip k] show
    "\<exists>ips'. sequentialLoop ip k = Inr ips' \<and> length ips' = k \<and> list_all outside_excluded ips'"
    by (blast intro: list_all_outside)
qed

theorem enumerator_avoids_excluded_ranges_witness:
  "fst (GenerateRandomIPs 0xDEADBEEF (\<lambda>i. of_nat i) 0 2)
     = Inr [\<lparr>Address = ''13.229.198.169''\<rparr>, \<lparr>Address = ''24.46.149.251''\<rparr>]
   \<and> list_all outside_excluded [\<lparr>Address = ''13.229.198.169''\<rparr>, \<lparr>Address = ''24.46.149.251''\<rparr>]
   \<and> GenerateSequentialIPs ''126.255.255.255'' 1 = Inr [\<lparr>Address = ''126.255.255.255''\<rparr>]
   \<and> list_all outside_excluded [\<lparr>Address = ''126.255.255.255''\<rparr>]"
proof -
  have r: "fst (GenerateRandomIPs 0xDEADBEEF (\<lambda>i. of_nat i) 0 2)
     = Inr [\<lparr>Address = ''13.229.198.169''\<rparr>, \<lparr>Address = ''24.46.149.251''\<rparr>]"
    by code_simp
  have s: "GenerateSequentialIPs ''126.255.255.255'' 1 = Inr [\<lparr>Address = ''126.255.255.255''\<rparr>]"
    by code_simp
  from enumerator_avoids_excluded_ranges
    [of "0xDEADBEEF" "\<lambda>i. of_nat i" 0 2
        "[\<lparr>Address = ''13.229.198.169''\<rparr>, \<lparr>Address = ''24.46.149.251''\<rparr>]"] r
  have 1: "list_all outside_excluded
             [\<lparr>Address = ''13.229.198.169''\<rparr>, \<lparr>Address = ''24.46.149.251''\<rparr>]" by blast
  from enumerator_avoids_excluded_ranges
    [of _ _ _ 1 "[\<lparr>Address = ''126.255.255.255''\<rparr>]" "''126.255.255.255''"] s
  have 2: "list_all outside_excluded [\<lparr>Address = ''126.255.255.255''\<rparr>]" by blast
  from r s 1 2 show ?thesis by blast
qed

subsection \<open>The scenario starting at 9.9.9.250\<close>

lemma sequentialLoop_from_9_255_255_250:
  "sequentialLoop (9, 255, 255, 250) 10 =
   Inr [\<lparr>Address = ''9.255.255.250''\<rparr>, \<lparr>Address = ''9.255.255.251''\<rparr>,
        \<lparr>Address = ''9.255.255.252''\<rparr>, \<lparr>Address = ''9.255.255.253''\<rparr>,
        \<lparr>Address = ''9.255.255.254''\<rparr>, \<lparr>Address = ''9.255.255.255''\<rparr>,
        \<lparr>Address = ''11.0.0.0''\<rparr>, \<lparr>Address = ''11.0.0.1''\<rparr>,
        \<lparr>Address = ''11.0.0.2''\<rparr>, \<lparr>Address = ''11.0.0.3''\<rparr>]"
proof -
  have v: "isValidPublicIP (9, 255, 255, 250)" "isValidPublicIP (9, 255, 255, 251)"
    "isValidPublicIP (9, 255, 255, 252)" "isValidPublicIP (9, 255, 255, 253)"
    "isValidPublicIP (9, 255, 255, 254)" "isValidPublicIP (9, 255, 255, 255)"
    "isValidPublicIP (11, 0, 0, 0)" "isValidPublicIP (11, 0, 0, 1)"
    "isValidPublicIP (11, 0, 0, 2)" "isValidPublicIP (11, 0, 0, 3)"
    by (simp_all add: isValidPublicIP_nat ipNat_def validNat_def)
  have i: "incIP (9, 255, 255, 250) = (9, 255, 255, 251)"
    "incIP (9, 255, 255, 251) = (9, 255, 255, 252)"
    "incIP (9, 255, 255, 252) = (9, 255, 255, 253)"
    "incIP (9, 255, 255, 253) = (9, 255, 255, 254)"
    "incIP (9, 255, 255, 254) = (9, 255, 255, 255)"
    "incIP (9, 255, 255, 255) = (10, 0, 0, 0)"
    "incIP (11, 0, 0, 0) = (11, 0, 0, 1)" "incIP (11, 0, 0, 1) = (11, 0, 0, 2)"
    "incIP (11, 0, 0, 2) = (11, 0, 0, 3)" "incIP (11, 0, 0, 3) = (11, 0, 0, 4)"
    by (simp_all add: incIP_def)
  have s: "IP_String (9, 255, 255, 250) = ''9.255.255.250''"
    "IP_String (9, 255, 255, 251) = ''9.255.255.251''"
    "IP_String (9, 255, 255, 252) = ''9.255.255.252''"
    "IP_String (9, 255, 255, 253) = ''9.255.255.253''"
    "IP_String (9, 255, 255, 254) = ''9.255.255.254''"
    "IP_String (9, 255, 255, 255) = ''9.255.255.255''"
    "IP_String (11, 0, 0, 0) = ''11.0.0.0''" "IP_String (11, 0, 0, 1) = ''11.0.0.1''"
    "IP_String (11, 0, 0, 2) = ''11.0.0.2''" "IP_String (11, 0, 0, 3) = ''11.0.0.3''"
    by code_simp+
  have n: "(10::nat) = Suc (Suc (Suc (Suc (Suc (Suc (Suc (Suc (Suc (Suc 0)))))))))" by simp
  show ?thesis
    unfolding n
    by (simp only: sequentialLoop_eval sequentialLoop.simps(1) skipInvalid_id v i s
        skipInvalid_10 sum.case)
qed

text \<open>
  Claim C7, as amended.  Sequential generation from 9.9.9.250 with count 10 emits
  9.9.9.250 to 9.9.9.255 and then 9.9.10.0 to 9.9.10.3: the successor of 9.9.9.255 is
  9.9.10.0, a public address.  The block 10.0.0.0/8 is skipped where the enumeration
  reaches it: from 9.255.255.250 with count 10 the addresses 9.255.255.250 to
  9.255.255.255 are followed by 11.0.0.0 to 11.0.0.3.
\<close>

theorem sequential_from_9_9_9_250:
  "GenerateSequentialIPs ''9.9.9.250'' 10 =
     Inr [\<lparr>Address = ''9.9.9.250''\<rparr>, \<lparr>Address = ''9.9.9.251''\<rparr>, \<lparr>Address = ''9.9.9.252''\<rparr>,
          \<lparr>Address = ''9.9.9.253''\<rparr>, \<lparr>Address = ''9.9.9.254''\<rparr>, \<lparr>Address = ''9.9.9.255''\<rparr>,
          \<lparr>Address = ''9.9.10.0''\<rparr>, \<lparr>Address = ''9.9.10.1''\<rparr>, \<lparr>Address = ''9.9.10.2''\<rparr>,
          \<lparr>Address = ''9.9.10.3''\<rparr>]
   \<and> GenerateSequentialIPs ''9.255.255.250'' 10 =
     Inr [\<lparr>Address = ''9.255.255.250''\<rparr>, \<lparr>Address = ''9.255.255.251''\<rparr>,
          \<lparr>Address = ''9.255.255.252''\<rparr>, \<lparr>Address = ''9.255.255.253''\<rparr>,
          \<lparr>Address = ''9.255.255.254''\<rparr>, \<lparr>Address = ''9.255.255.255''\<rparr>,
          \<lparr>Address = ''11.0.0.0''\<rparr>, \<lparr>Address = ''11.0.0.1''\<rparr>,
          \<lparr>Address = ''11.0.0.2''\<rparr>, \<lparr>Address = ''11.0.0.3''\<rparr>]"
proof
  show "GenerateSequentialIPs ''9.9.9.250'' 10 =
     Inr [\<lparr>Address = ''9.9.9.250''\<rparr>, \<lparr>Address = ''9.9.9.251''\<rparr>, \<lparr>Address = ''9.9.9.252''\<rparr>,
          \<lparr>Address = ''9.9.9.253''\<rparr>, \<lparr>Address = ''9.9.9.254''\<rparr>, \<lparr>Address = ''9.9.9.255''\<rparr>,
          \<lparr>Address = ''9.9.10.0''\<rparr>, \<lparr>Address = ''9.9.10.1''\<rparr>, \<lparr>Address = ''9.9.10.2''\<rparr>,
          \<lparr>Address = ''9.9.10.3''\<rparr>]"
    by code_simp
next
  have p: "ParseIP ''9.255.255.250'' = Some (9, 255, 255, 250)" by code_simp
  show "GenerateSequentialIPs ''9.255.255.250'' 10 =
     Inr [\<lparr>Address = ''9.255.255.250''\<rparr>, \<lparr>Address = ''9.255.255.251''\<rparr>,
          \<lparr>Address = ''9.255.255.252''\<rparr>, \<lparr>Address = ''9.255.255.253''\<rparr>,
          \<lparr>Address = ''9.255.255.254''\<rparr>, \<lparr>Address = ''9.255.255.255''\<rparr>,
          \<lparr>Address = ''11.0.0.0''\<rparr>, \<lparr>Address = ''11.0.0.1''\<rparr>,
          \<lparr>Address = ''11.0.0.2''\<rparr>, \<lparr>Address = ''11.0.0.3''\<rparr>]"
    by (simp add: GenerateSequentialIPs_def p sequentialLoop_from_9_255_255_250
        del: sequentialLoop.simps)
qed

text \<open>
  The sequence stated for this scenario, with 11.0.0.0 directly after 9.9.9.255, is not
  what the generator returns.
\<close>

theorem sequential_from_9_9_9_250_counterexample:
  "GenerateSequentialIPs ''9.9.9.250'' 10 \<noteq>
     Inr [\<lparr>Address = ''9.9.9.250''\<rparr>, \<lparr>Address = ''9.9.9.251''\<rparr>, \<lparr>Address = ''9.9.9.252''\<rparr>,
          \<lparr>Address = ''9.9.9.253''\<rparr>, \<lparr>Address = ''9.9.9.254''\<rparr>, \<lparr>Address = ''9.9.9.255''\<rparr>,
          \<lparr>Address = ''11.0.0.0''\<rparr>, \<lparr>Address = ''11.0.0.1''\<rparr>, \<lparr>Address = ''11.0.0.2''\<rparr>,
          \<lparr>Address = ''11.0.0.3''\<rparr>]"
  by code_simp

section \<open>Properties of the batch dispatcher\<close>

lemma go_quot_pos: "0 \<le> a \<Longrightarrow> 0 < b \<Longrightarrow> go_quot a b = a div b"
  by (cases "a = 0") (simp_all add: go_quot_def)

lemma go_rem_pos: "0 \<le> a \<Longrightarrow> 0 < b \<Longrightarrow> go_rem a b = a mod b"
  by (simp add: go_rem_def go_quot_pos minus_mult_div_eq_mod)

lemma wrap64_id: "- (2 ^ 63) \<le> x \<Longrightarrow> x < 2 ^ 63 \<Longrightarrow> wrap64 x = x"
  by (simp add: wrap64_def)

lemma GenerateRandomIPs_length:
  assumes "fst (GenerateRandomIPs seed rnd pos count) = Inr ips" and "0 \<le> count"
  shows "int (length ips) = count"
proof -
  obtain ips' pos' where
    r: "randomLoop seed rnd count (wrap64 (count * 100)) [] (\<lambda>_. False) 0 pos = (ips', pos')"
    by (cases "randomLoop seed rnd count (wrap64 (count * 100)) [] (\<lambda>_. False) 0 pos") auto
  from assms(1) r have "ips = ips'" and ge: "\<not> int (length ips') < count"
    by (auto simp: GenerateRandomIPs_def Let_def split: if_splits)
  moreover have "int (length ips') \<le> count"
    using randomLoop_length [OF assms(2), of seed rnd "wrap64 (count * 100)" "\<lambda>_. False" 0 pos] r
    by simp
  ultimately show ?thesis by simp
qed

lemma batchLoop_stop:
  "\<not> i < numBatches \<Longrightarrow>
   batchLoop seed rnd batchID count batchSize numBatches i pos messages = (Inr messages, pos)"
  by (subst batchLoop.simps) simp

lemma batchLoop_fail:
  "i < numBatches \<Longrightarrow>
   GenerateIPs seed rnd pos (currentBatchSize count batchSize numBatches i) = (Inl err, pos') \<Longrightarrow>
   batchLoop seed rnd batchID count batchSize numBatches i pos messages
     = (Inl (GenerateFailed i err), pos')"
  by (subst batchLoop.simps) (simp add: currentBatchSize_def)

lemma batchLoop_step:
  "i < numBatches \<Longrightarrow>
   GenerateIPs seed rnd pos (currentBatchSize count batchSize numBatches i) = (Inr ips, pos') \<Longrightarrow>
   batchLoop seed rnd batchID count batchSize numBatches i pos messages
     = batchLoop seed rnd batchID count batchSize numBatches (i + 1) pos'
         (messages @ [\<lparr>IPs = map Address ips, BatchID = batchID @ ''-'' @ fmt_int i,
                        Count = int (length (map Address ips))\<rparr>])"
  by (subst batchLoop.simps) (simp add: currentBatchSize_def Let_def)

lemma batchLoop_result:
  assumes "fst (batchLoop seed rnd batchID count batchSize numBatches i pos messages) = Inr out"
    and "0 < count" and "0 < batchSize"
  shows "\<exists>new. out = messages @ new \<and> length new = nat (numBatches - i)
           \<and> (\<forall>j < length new.
                 batch_ok batchID count batchSize numBatches (i + int j) (new ! j))"
  using assms(1)
proof (induction "nat (numBatches - i)" arbitrary: i pos messages rule: less_induct)
  case less
  show ?case
  proof (cases "i < numBatches")
    case False
    with less.prems have "out = messages" by (simp add: batchLoop_stop)
    with False show ?thesis by simp
  next
    case True
    let ?c = "currentBatchSize count batchSize numBatches i"
    have c0: "0 \<le> ?c"
      using assms(2,3) by (simp add: currentBatchSize_def go_rem_pos)
    obtain r pos' where g: "GenerateIPs seed rnd pos ?c = (r, pos')"
      by (cases "GenerateIPs seed rnd pos ?c") auto
    show ?thesis
    proof (cases r)
      case (Inl err)
      with True g less.prems show ?thesis by (simp add: batchLoop_fail)
    next
      case (Inr ips)
      let ?m = "\<lparr>IPs = map Address ips, BatchID = batchID @ ''-'' @ fmt_int i,
                 Count = int (length (map Address ips))\<rparr>"
      have len: "int (length ips) = ?c"
        using g Inr c0 GenerateRandomIPs_length [of seed rnd pos ?c ips]
        by (simp add: GenerateIPs_def)
      have m: "batch_ok batchID count batchSize numBatches i ?m"
        using len by (simp add: batch_ok_def)
      have step: "batchLoop seed rnd batchID count batchSize numBatches i pos messages
          = batchLoop seed rnd batchID count batchSize numBatches (i + 1) pos' (messages @ [?m])"
        using True g Inr by (simp add: batchLoop_step)
      have lt: "nat (numBatches - (i + 1)) < nat (numBatches - i)" using True by simp
      have r: "fst (batchLoop seed rnd batchID count batchSize numBatches (i + 1) pos'
                 (messages @ [?m])) = Inr out"
        using less.prems step by simp
      from less.hyps [OF lt r] obtain new where
        new: "out = (messages @ [?m]) @ new" "length new = nat (numBatches - (i + 1))"
        "\<forall>j < length new.
           batch_ok batchID count batchSize numBatches (i + 1 + int j) (new ! j)"
        by blast
      have "\<forall>j < length (?m # new).
              batch_ok batchID count batchSize numBatches (i + int j) ((?m # new) ! j)"
      proof (intro allI impI)
        fix j assume j: "j < length (?m # new)"
        show "batch_ok batchID count batchSize numBatches (i + int j) ((?m # new) ! j)"
        proof (cases j)
          case 0
          with m show ?thesis by simp
        next
          case (Suc j')
          with j new(3) have
            "batch_ok batchID count batchSize numBatches (i + 1 + int j') (new ! j')" by simp
          with Suc show ?thesis by (simp add: add.assoc)
        qed
      qed
      moreover have "length (?m # new) = nat (numBatches - i)"
        using new(2) True by simp
      moreover have "out = messages @ (?m # new)" using new(1) by simp
      ultimately show ?thesis by blast
    qed
  qed
qed

lemma div_block: "0 < (B::int) \<Longrightarrow> 0 \<le> r \<Longrightarrow> r < B \<Longrightarrow> (B * q + r) div B = q"
  by simp

lemma ceil_div_cases:
  assumes "0 < (B::int)"
  shows "(N + B - 1) div B = (if N mod B = 0 then N div B else N div B + 1)"
proof (cases "N mod B = 0")
  case True
  then obtain q where q: "N = B * q" by auto
  have "N + B - 1 = B * q + (B - 1)" using q by simp
  then have "(N + B - 1) div B = q" using assms by (simp only: div_block)
  with q True assms show ?thesis by simp
next
  case False
  have "0 \<le> N mod B" and b: "N mod B < B" using assms by simp_all
  with False have r: "0 \<le> N mod B - 1" "N mod B - 1 < B" by simp_all
  have "N + B - 1 = B * (N div B + 1) + (N mod B - 1)"
    by (simp add: algebra_simps)
  then have "(N + B - 1) div B = N div B + 1"
    using assms r by (simp only: div_block)
  with False show ?thesis by simp
qed

lemma ceil_div_int:
  assumes "0 < (B::int)"
  shows "(N + B - 1) div B = \<lceil>real_of_int N / real_of_int B\<rceil>"
proof -
  have "- N div B = (if N mod B = 0 then - (N div B) else - (N div B) - 1)"
    using assms by (simp add: zdiv_zminus1_eq_if)
  then have "(N + B - 1) div B = - (- N div B)"
    using ceil_div_cases [OF assms, of N] by simp
  then show ?thesis by (simp add: ceiling_divide_eq_div)
qed

lemma batches_cover:
  assumes "0 < (B::int)"
  shows "((N + B - 1) div B - 1) * B + (if N mod B \<noteq> 0 then N mod B else B) = N"
proof (cases "N mod B = 0")
  case True
  have nb: "(N + B - 1) div B = N div B" using True assms by (simp add: ceil_div_cases)
  have "N div B * B + N mod B = N" by simp
  with True have "N div B * B = N" by simp
  then have "(N div B - 1) * B + B = N" by (simp add: left_diff_distrib)
  with True nb show ?thesis by simp
next
  case False
  have "N div B * B + N mod B = N" by simp
  with False assms show ?thesis by (simp add: ceil_div_cases)
qed

lemma wrap64_pred: "wrap64 (wrap64 x - 1) = wrap64 (x - 1)"
proof -
  have "(wrap64 x - 1 + 2 ^ 63) mod 2 ^ 64 = ((x + 2 ^ 63) mod 2 ^ 64 - 1) mod 2 ^ 64"
    by (simp add: wrap64_def)
  also have "\<dots> = (x + 2 ^ 63 - 1) mod 2 ^ 64" by (rule mod_diff_left_eq)
  finally show ?thesis by (simp add: wrap64_def algebra_simps)
qed

lemma batchLoop_error:
  "fst (batchLoop seed rnd batchID count batchSize numBatches i pos messages) = Inl err
   \<Longrightarrow> \<exists>k e. err = GenerateFailed k e"
proof (induction "nat (numBatches - i)" arbitrary: i pos messages rule: less_induct)
  case less
  show ?case
  proof (cases "i < numBatches")
    case False
    with less.prems show ?thesis by (simp add: batchLoop_stop)
  next
    case True
    let ?c = "currentBatchSize count batchSize numBatches i"
    obtain r pos' where g: "GenerateIPs seed rnd pos ?c = (r, pos')"
      by (cases "GenerateIPs seed rnd pos ?c") auto
    show ?thesis
    proof (cases r)
      case (Inl e)
      with True g less.prems show ?thesis by (auto simp: batchLoop_fail)
    next
      case (Inr ips)
      have lt: "nat (numBatches - (i + 1)) < nat (numBatches - i)" using True by simp
      from True g Inr less.prems have
        "fst (batchLoop seed rnd batchID count batchSize numBatches (i + 1) pos'
           (messages @ [\<lparr>IPs = map Address ips, BatchID = batchID @ ''-'' @ fmt_int i,
                          Count = int (length (map Address ips))\<rparr>])) = Inl err"
        by (simp add: batchLoop_step)
      from less.hyps [OF lt this] show ?thesis .
    qed
  qed
qed

lemma PublishBatch_all:
  "snd (PublishBatch publish messages) = None \<Longrightarrow> fst (PublishBatch publish messages) = messages"
  by (induction messages) (auto split: option.splits prod.splits)

lemma fmt_int_nat: "fmt_int (int i) = itoa i"
  by (simp add: fmt_int_def)

lemma dispatcher_messages:
  assumes N: "0 < N" and B: "0 < B" and fit: "N + B - 1 < 2 ^ 63"
    and gen: "\<forall>i e. Err (GenerateAndPublishIPs seed rnd pos now publish N B)
                \<noteq> Some (GenerateFailed i e)"
  shows "length (Messages (GenerateAndPublishIPs seed rnd pos now publish N B))
           = nat ((N + B - 1) div B)
         \<and> (\<forall>j < length (Messages (GenerateAndPublishIPs seed rnd pos now publish N B)).
               batch_ok (generateBatchID now) N B ((N + B - 1) div B) (int j)
                 (Messages (GenerateAndPublishIPs seed rnd pos now publish N B) ! j))
         \<and> (Err (GenerateAndPublishIPs seed rnd pos now publish N B) = None \<longrightarrow>
              Published (GenerateAndPublishIPs seed rnd pos now publish N B)
                = Messages (GenerateAndPublishIPs seed rnd pos now publish N B))"
proof -
  let ?nb = "(N + B - 1) div B"
  have nb: "go_quot (wrap64 (wrap64 (N + B) - 1)) B = ?nb"
    using N B fit by (simp add: wrap64_pred wrap64_id go_quot_pos)
  obtain r pos' where l: "batchLoop seed rnd (generateBatchID now) N B ?nb 0 pos [] = (r, pos')"
    by (cases "batchLoop seed rnd (generateBatchID now) N B ?nb 0 pos []") auto
  show ?thesis
  proof (cases r)
    case (Inl err)
    with l batchLoop_error [of seed rnd "generateBatchID now" N B ?nb 0 pos "[]" err]
    obtain k e where "err = GenerateFailed k e" by auto
    with Inl l N B nb have
      "Err (GenerateAndPublishIPs seed rnd pos now publish N B) = Some (GenerateFailed k e)"
      by (simp add: GenerateAndPublishIPs_def Let_def)
    with gen show ?thesis by blast
  next
    case (Inr messages)
    with l batchLoop_result [of seed rnd "generateBatchID now" N B ?nb 0 pos "[]" messages] N B
    have m: "length messages = nat ?nb"
      "\<forall>j < length messages. batch_ok (generateBatchID now) N B ?nb (int j) (messages ! j)"
      by auto
    have out: "Messages (GenerateAndPublishIPs seed rnd pos now publish N B) = messages"
      using Inr l N B nb
      by (simp add: GenerateAndPublishIPs_def Let_def split: prod.splits option.splits)
    have pub: "Err (GenerateAndPublishIPs seed rnd pos now publish N B) = None \<longrightarrow>
          Published (GenerateAndPublishIPs seed rnd pos now publish N B) = messages"
      using Inr l N B nb PublishBatch_all [of publish messages]
      by (auto simp: GenerateAndPublishIPs_def Let_def split: prod.splits option.splits)
    from m out pub show ?thesis by simp
  qed
qed

text \<open>
  When generation fails for a batch, the dispatcher has built and published nothing.
\<close>

lemma generation_error_publishes_nothing:
  assumes "Err (GenerateAndPublishIPs seed rnd pos now publish N B) = Some (GenerateFailed i e)"
  shows "Messages (GenerateAndPublishIPs seed rnd pos now publish N B) = []"
    and "Published (GenerateAndPublishIPs seed rnd pos now publish N B) = []"
  using assms
  by (auto simp: GenerateAndPublishIPs_def Let_def
      split: if_splits prod.splits sum.splits option.splits)

text \<open>
  A single batch of more than \<open>2 ^ 32\<close> addresses: the generator fails for the first
  batch, whatever the seed and the draws, and the dispatcher returns that error without
  building a message.
\<close>

lemma dispatcher_generation_fails:
  assumes big: "4294967296 < N" and fit: "N < 2 ^ 62"
  shows "\<exists>n. Err (GenerateAndPublishIPs seed rnd pos now publish N N)
                = Some (GenerateFailed 0 (CouldOnlyGenerate n N))
            \<and> Messages (GenerateAndPublishIPs seed rnd pos now publish N N) = []"
proof -
  have N: "0 < N" using big by simp
  have nle: "(N \<le> 0) = False" using N by simp
  have a: "wrap64 (N + N) = N + N" using N fit by (intro wrap64_id) simp_all
  have b: "wrap64 (N + N - 1) = N + N - 1" using N fit by (intro wrap64_id) simp_all
  have "(N * 1 + (N - 1)) div N = 1" using N by (intro div_block) simp_all
  moreover have "N * 1 + (N - 1) = N + N - 1" by simp
  ultimately have q: "(N + N - 1) div N = 1" by (simp only:)
  have nb: "go_quot (wrap64 (wrap64 (N + N) - 1)) N = 1"
    unfolding a b using N q by (simp only: go_quot_pos) 
  have cs: "currentBatchSize N N 1 0 = N"
    using N by (simp add: currentBatchSize_def go_rem_pos)
  obtain r pos' where g: "GenerateIPs seed rnd pos N = (r, pos')"
    by (cases "GenerateIPs seed rnd pos N") auto
  from GenerateRandomIPs_exhausted [OF big, of seed rnd pos] g
  obtain n where n: "r = Inl (CouldOnlyGenerate n N)" by (auto simp: GenerateIPs_def)
  have g': "GenerateIPs seed rnd pos (currentBatchSize N N 1 0) = (Inl (CouldOnlyGenerate n N), pos')"
    unfolding cs using g n by simp
  have bl: "batchLoop seed rnd (generateBatchID now) N N 1 0 pos []
          = (Inl (GenerateFailed 0 (CouldOnlyGenerate n N)), pos')"
    by (rule batchLoop_fail [OF _ g']) simp
  have "GenerateAndPublishIPs seed rnd pos now publish N N
          = \<lparr>Err = Some (GenerateFailed 0 (CouldOnlyGenerate n N)), Messages = [],
             Published = [], RngPos = pos'\<rparr>"
    unfolding GenerateAndPublishIPs_def Let_def nle if_False nb bl by simp
  then show ?thesis by simp
qed

text \<open>
  Claim C2, as amended.  For a count \<open>N > 0\<close> and a batch size \<open>B > 0\<close> with
  \<open>N + B - 1\<close> at most \<open>2 ^ 63 - 1\<close>, whenever address generation succeeds for every batch
  the dispatcher builds exactly \<open>\<lceil>N / B\<rceil>\<close> messages whose counts sum to \<open>N\<close>; every
  message but the last carries \<open>B\<close> addresses, the last carries \<open>N mod B\<close> if that is not
  zero and \<open>B\<close> otherwise; message \<open>i\<close> has the identifier of the shared base followed
  by a dash and \<open>i\<close>, and its count is the number of its addresses.  When the call
  reports no error, the queue accepted exactly these messages.
\<close>

theorem dispatcher_partitions_exactly:
  assumes N: "0 < N" and B: "0 < B" and fit: "N + B - 1 < 2 ^ 63"
    and out: "out = GenerateAndPublishIPs seed rnd pos now publish N B"
    and gen: "\<forall>i e. Err out \<noteq> Some (GenerateFailed i e)"
  shows "int (length (Messages out)) = \<lceil>real_of_int N / real_of_int B\<rceil>
     \<and> sum_list (map Count (Messages out)) = N
     \<and> (\<forall>i. Suc i < length (Messages out) \<longrightarrow> Count (Messages out ! i) = B)
     \<and> Count (last (Messages out)) = (if N mod B \<noteq> 0 then N mod B else B)
     \<and> (\<forall>i < length (Messages out).
            BatchID (Messages out ! i) = generateBatchID now @ ''-'' @ itoa i
          \<and> int (length (IPs (Messages out ! i))) = Count (Messages out ! i))
     \<and> (Err out = None \<longrightarrow> Published out = Messages out)"
proof -
  let ?nb = "(N + B - 1) div B"
  let ?msgs = "Messages out"
  let ?last = "if N mod B \<noteq> 0 then N mod B else B"
  from dispatcher_messages [OF N B fit, of seed rnd pos now publish] gen
  have len: "length ?msgs = nat ?nb"
    and ok: "\<forall>j < length ?msgs. batch_ok (generateBatchID now) N B ?nb (int j) (?msgs ! j)"
    and pub: "Err out = None \<longrightarrow> Published out = ?msgs"
    unfolding out by blast+
  have "B div B \<le> ?nb" using N B by (intro zdiv_mono1) simp_all
  then have nb1: "1 \<le> ?nb" using B by simp
  have rem: "go_rem N B = N mod B" using N B by (simp add: go_rem_pos)
  have cnt: "Count (?msgs ! j) = (if int j = ?nb - 1 then ?last else B)"
    if "j < length ?msgs" for j
    using ok that by (auto simp: batch_ok_def currentBatchSize_def rem)
  have c1: "int (length ?msgs) = \<lceil>real_of_int N / real_of_int B\<rceil>"
    using len nb1 ceil_div_int [OF B, of N] by simp
  have c3: "\<forall>i. Suc i < length ?msgs \<longrightarrow> Count (?msgs ! i) = B"
    using cnt len by auto
  have ne: "?msgs \<noteq> []" using len nb1 by auto
  have c4: "Count (last ?msgs) = ?last"
  proof -
    have "last ?msgs = ?msgs ! (length ?msgs - 1)" using ne by (simp add: last_conv_nth)
    moreover have "int (length ?msgs - 1) = ?nb - 1" using len nb1 by simp
    ultimately show ?thesis using cnt [of "length ?msgs - 1"] ne by simp
  qed
  have c2: "sum_list (map Count ?msgs) = N"
  proof -
    obtain n where n: "length ?msgs = Suc n" using ne by (cases ?msgs) auto
    then have nn: "int n = ?nb - 1" using len nb1 by simp
    have "sum_list (map Count ?msgs) = (\<Sum>i = 0..<Suc n. Count (?msgs ! i))"
      using n by (simp add: sum_list_sum_nth del: sum.op_ivl_Suc)
    also have "\<dots> = (\<Sum>i = 0..<n. Count (?msgs ! i)) + Count (?msgs ! n)" by simp
    also have "(\<Sum>i = 0..<n. Count (?msgs ! i)) = (\<Sum>i = 0..<n. B)"
      by (rule sum.cong) (use cnt n nn in auto)
    also have "\<dots> = int n * B" by simp
    also have "Count (?msgs ! n) = ?last" using cnt [of n] n nn by simp
    finally show ?thesis using nn batches_cover [OF B, of N] by simp
  qed
  have c5: "\<forall>i < length ?msgs.
            BatchID (?msgs ! i) = generateBatchID now @ ''-'' @ itoa i
          \<and> int (length (IPs (?msgs ! i))) = Count (?msgs ! i)"
    using ok by (auto simp: batch_ok_def fmt_int_nat)
  from c1 c2 c3 c4 c5 pub show ?thesis by blast
qed

theorem dispatcher_partitions_exactly_witness:
  "(0::int) < 5 \<and> (0::int) < 2 \<and> (5::int) + 2 - 1 < 2 ^ 63
   \<and> Err (GenerateAndPublishIPs 0xDEADBEEF (\<lambda>i. of_nat i) 0 17 (\<lambda>m. None) 5 2) = None
   \<and> int (length (Messages (GenerateAndPublishIPs 0xDEADBEEF (\<lambda>i. of_nat i) 0 17 (\<lambda>m. None) 5 2))) = 3
   \<and> sum_list (map Count
         (Messages (GenerateAndPublishIPs 0xDEADBEEF (\<lambda>i. of_nat i) 0 17 (\<lambda>m. None) 5 2))) = 5
   \<and> Count (last
         (Messages (GenerateAndPublishIPs 0xDEADBEEF (\<lambda>i. of_nat i) 0 17 (\<lambda>m. None) 5 2))) = 1"
proof -
  let ?out = "GenerateAndPublishIPs 0xDEADBEEF (\<lambda>i. of_nat i) 0 17 (\<lambda>m. None) 5 2"
  have e: "Err ?out = None" by code_simp
  then have g: "\<forall>i e. Err ?out \<noteq> Some (GenerateFailed i e)" by simp
  have h: "(0::int) < 5" "(0::int) < 2" "(5::int) + 2 - 1 < 2 ^ 63" by simp_all
  from dispatcher_partitions_exactly [OF h refl g]
  have "int (length (Messages ?out)) = 3" "sum_list (map Count (Messages ?out)) = 5"
    "Count (last (Messages ?out)) = 1"
    by simp_all
  with e h show ?thesis by simp
qed

text \<open>
  The statement does not hold for every \<open>N > 0\<close> and \<open>B > 0\<close>.  When the generator
  exhausts its attempts (here every draw is mapped to the excluded address 0.0.0.0; for
  a batch of more than \<open>2 ^ 32\<close> addresses it does so whatever the draws) the call
  returns the generation error and builds no message.  When \<open>N + B - 1\<close> exceeds
  \<open>2 ^ 63 - 1\<close> the number of batches wraps to a negative value, the loop body never
  runs, and the call reports success having built no message.
\<close>

theorem dispatcher_partitions_exactly_counterexample:
  "int (length (Messages (GenerateAndPublishIPs 0 (\<lambda>i. 0) 0 17 (\<lambda>m. None) 1 1)))
     \<noteq> \<lceil>real_of_int 1 / real_of_int 1\<rceil>
   \<and> Err (GenerateAndPublishIPs 0 (\<lambda>i. 0) 0 17 (\<lambda>m. None) 1 1)
       = Some (GenerateFailed 0 (CouldOnlyGenerate 0 1))
   \<and> int (length (Messages
         (GenerateAndPublishIPs 0 (\<lambda>i. 0) 0 17 (\<lambda>m. None) 2 9223372036854775807)))
     \<noteq> \<lceil>real_of_int 2 / real_of_int 9223372036854775807\<rceil>
   \<and> Err (GenerateAndPublishIPs 0 (\<lambda>i. 0) 0 17 (\<lambda>m. None) 2 9223372036854775807) = None"
proof -
  have a: "Messages (GenerateAndPublishIPs 0 (\<lambda>i. 0) 0 17 (\<lambda>m. None) 1 1) = []"
    by code_simp
  have b: "Err (GenerateAndPublishIPs 0 (\<lambda>i. 0) 0 17 (\<lambda>m. None) 1 1)
       = Some (GenerateFailed 0 (CouldOnlyGenerate 0 1))"
    by code_simp
  have c: "GenerateAndPublishIPs 0 (\<lambda>i. 0) 0 17 (\<lambda>m. None) 2 9223372036854775807
     = \<lparr>Err = None, Messages = [], Published = [], RngPos = 0\<rparr>"
    by (simp add: GenerateAndPublishIPs_def wrap64_def go_quot_def batchLoop_stop)
  have d: "\<lceil>real_of_int 2 / real_of_int 9223372036854775807\<rceil> = 1"
    by (simp add: ceiling_divide_eq_div)
  show ?thesis by (simp add: a b c d)
qed

section \<open>Properties of the scanner\<close>

lemma fold_AddPort_fields:
  "IsUp (fold AddPort ports r) = IsUp r"
  "Status (fold AddPort ports r) = Status r"
  "Ports (fold AddPort ports r) = Ports r @ ports"
  by (induction ports arbitrary: r) (simp_all add: AddPort_def)

text \<open>A schedule rearranges: it keeps the number of the elements and the elements.\<close>

lemma schedule_step:
  assumes "xs \<noteq> []" and "i = k mod length xs"
  shows "schedule (k # ks) xs = xs ! i # schedule ks (take i xs @ drop (Suc i) xs)"
    and "i < length xs"
  using assms by (simp_all add: Let_def)

lemma schedule_length: "length (schedule ks xs) = length xs"
proof (induction ks arbitrary: xs)
  case Nil
  show ?case by simp
next
  case (Cons k ks)
  show ?case
  proof (cases "xs = []")
    case True
    then show ?thesis by simp
  next
    case False
    define i where "i = k mod length xs"
    note s = schedule_step [OF False i_def]
    have "length (schedule (k # ks) xs) = Suc (length (take i xs @ drop (Suc i) xs))"
      unfolding s(1) by (simp only: list.size length_Cons Cons)
    also have "\<dots> = length xs" using s(2) by simp
    finally show ?thesis .
  qed
qed

lemma schedule_set: "set (schedule ks xs) = set xs"
proof (induction ks arbitrary: xs)
  case Nil
  show ?case by simp
next
  case (Cons k ks)
  show ?case
  proof (cases "xs = []")
    case True
    then show ?thesis by simp
  next
    case False
    define i where "i = k mod length xs"
    note s = schedule_step [OF False i_def]
    have "set (schedule (k # ks) xs) = set (take i xs @ xs ! i # drop (Suc i) xs)"
      unfolding s(1) by (simp add: Cons del: schedule.simps)
    also have "\<dots> = set xs" using id_take_nth_drop [OF s(2)] by simp
    finally show ?thesis .
  qed
qed

text \<open>
  When \<open>ScanPorts\<close> returns, its error is \<open>nil\<close>; it returns whenever the concurrency limit
  is positive, and so does \<open>ScanIP\<close>.
\<close>

lemma ScanPorts_no_error: "ScanPorts env cfg ip ports = Returns (results, err) \<Longrightarrow> err = None"
  by (simp add: ScanPorts_def split: if_splits)

lemma ScanPorts_returns:
  "0 < Concurrency cfg \<Longrightarrow>
   ScanPorts env cfg ip ports
     = Returns (schedule (finish_order env ip) (collectPorts env cfg ip ports), None)"
  by (simp add: ScanPorts_def)

lemma ScanIP_returns:
  "0 < Concurrency scfg \<Longrightarrow> returned (ScanIP env scfg ip config0 batchID workerID)"
  by (simp add: ScanIP_def Let_def ScanPorts_returns returned_def split: prod.splits option.splits)

lemma ScanIP_up_or_no_ports:
  "ScanIP env scfg ip config0 batchID workerID = Returns (result, err) \<Longrightarrow>
   IsUp result \<or> Status result = ScanStatusFailed \<or> Ports result = []"
  by (auto simp: ScanIP_def Let_def NewScanResult_def SetCompleted_def SetFailed_def
      fold_AddPort_fields split: prod.splits option.splits outcome.splits if_splits)

text \<open>
  Claim C9.  A scan result with status completed and \<open>is_up = false\<close> has no ports.  When
  ping is enabled and reports the host down without error, \<open>ScanIP\<close> returns, with no
  error, the completed result written out below, in which no port scan takes part.
\<close>

theorem completed_down_has_no_ports:
  "(ScanIP env scfg ip config0 batchID workerID = Returns (result, err)
      \<and> Status result = ScanStatusCompleted \<and> \<not> IsUp result
    \<longrightarrow> Ports result = [])
   \<and> (EnablePing (case config0 of None \<Rightarrow> scfg | Some c \<Rightarrow> c)
        \<and> PingHost env ip = (False, pingTime, None)
      \<longrightarrow> ScanIP env scfg ip config0 batchID workerID =
            Returns
              (\<lparr>IP = ip, IsUp = False, PingTime = pingTime, ScanStartTime = clock env,
                ScanEndTime = clock env, Ports = [], Status = ScanStatusCompleted, Error = [],
                ScanBatchID = batchID, WorkerID = workerID\<rparr>, None))"
proof (intro conjI impI)
  assume "ScanIP env scfg ip config0 batchID workerID = Returns (result, err)
      \<and> Status result = ScanStatusCompleted \<and> \<not> IsUp result"
  with ScanIP_up_or_no_ports [of env scfg ip config0 batchID workerID result err]
  show "Ports result = []" by auto
next
  assume "EnablePing (case config0 of None \<Rightarrow> scfg | Some c \<Rightarrow> c)
        \<and> PingHost env ip = (False, pingTime, None)"
  then show "ScanIP env scfg ip config0 batchID workerID =
            Returns
              (\<lparr>IP = ip, IsUp = False, PingTime = pingTime, ScanStartTime = clock env,
                ScanEndTime = clock env, Ports = [], Status = ScanStatusCompleted, Error = [],
                ScanBatchID = batchID, WorkerID = workerID\<rparr>, None)"
    by (simp add: ScanIP_def Let_def NewScanResult_def SetCompleted_def)
qed

theorem completed_down_has_no_ports_witness:
  "EnablePing NewDefaultScanConfig
   \<and> PingHost env_down ''192.0.2.1'' = (False, 7, None)
   \<and> ScanIP env_down NewDefaultScanConfig ''192.0.2.1'' None ''batch-17-0'' ''worker-1''
       = Returns
           (\<lparr>IP = ''192.0.2.1'', IsUp = False, PingTime = 7, ScanStartTime = 1000,
             ScanEndTime = 1000, Ports = [], Status = ScanStatusCompleted, Error = [],
             ScanBatchID = ''batch-17-0'', WorkerID = ''worker-1''\<rparr>, None)
   \<and> Ports \<lparr>IP = ''192.0.2.1'', IsUp = False, PingTime = 7, ScanStartTime = 1000,
             ScanEndTime = 1000, Ports = [], Status = ScanStatusCompleted, Error = [],
             ScanBatchID = ''batch-17-0'', WorkerID = ''worker-1''\<rparr> = []"
proof -
  let ?res = "\<lparr>IP = ''192.0.2.1'', IsUp = False, PingTime = 7, ScanStartTime = 1000,
             ScanEndTime = 1000, Ports = [], Status = ScanStatusCompleted, Error = [],
             ScanBatchID = ''batch-17-0'', WorkerID = ''worker-1''\<rparr>"
  note t = completed_down_has_no_ports
      [of env_down NewDefaultScanConfig "''192.0.2.1''" None "''batch-17-0''" "''worker-1''"
          ?res None 7]
  have p: "PingHost env_down ''192.0.2.1'' = (False, 7, None)" by code_simp
  have e: "EnablePing NewDefaultScanConfig" by (simp add: NewDefaultScanConfig_def)
  have c: "clock env_down = 1000" by (simp add: env_down_def)
  have s: "ScanIP env_down NewDefaultScanConfig ''192.0.2.1'' None ''batch-17-0'' ''worker-1''
             = Returns (?res, None)"
    using t p e c by simp
  have "Ports ?res = []" using t s by simp
  with e p s show ?thesis by blast
qed

text \<open>
  How \<open>analyzePingResult\<close> classifies a command that failed, for a validly formatted
  address.  Expiry of the deadline gives \<open>is_up = false\<close> with the timeout error, a missing
  executable gives \<open>is_up = false\<close> with the not-available error, and \<open>is_up = false\<close>
  with no error is given when the text of the error \<open>cmd.Run\<close> returned contains
  \<open>100% packet loss\<close> or \<open>Destination Host Unreachable\<close>.
\<close>

lemma ping_outcomes:
  assumes "isValidIP ip"
  shows "(RunErr (run_ping env ip) = Some e \<and> CtxErr (run_ping env ip) = None
          \<and> \<not> contains e ''executable file not found''
          \<and> (contains e ''100% packet loss'' \<or> contains e ''Destination Host Unreachable'')
         \<longrightarrow> PingHost env ip = (False, RunDuration (run_ping env ip), None))
     \<and> (RunErr (run_ping env ip) = Some e \<and> CtxErr (run_ping env ip) = Some c
         \<longrightarrow> PingHost env ip = (False, RunDuration (run_ping env ip), Some (PingTimeout c)))
     \<and> (RunErr (run_ping env ip) = Some e \<and> CtxErr (run_ping env ip) = None
          \<and> contains e ''executable file not found''
         \<longrightarrow> PingHost env ip
               = (False, RunDuration (run_ping env ip), Some (PingNotAvailable e)))"
  using assms
  by (auto simp: PingHost_def SafePingService_PingHost_def analyzePingResult_def Let_def)

text \<open>
  The text tested is that of the error, not what the command printed.  When the command
  fails and the text of its error is only an exit status, the deadline not having
  expired, the probe reports a failed ping whatever the command wrote to its standard
  output, and a scan with ping enabled fails with it.
\<close>

lemma exit_status_text:
  "\<not> contains ''exit status 1'' ''executable file not found''"
  "\<not> contains ''exit status 1'' ''100% packet loss''"
  "\<not> contains ''exit status 1'' ''Destination Host Unreachable''"
  by code_simp+

lemma ping_exit_status_is_failure:
  assumes "isValidIP ip"
    and "run_ping env ip
           = \<lparr>RunErr = Some ''exit status 1'', RunDuration = d, CtxErr = None, RunOutput = out\<rparr>"
  shows "PingHost env ip = (False, d, Some (PingFailed ''exit status 1''))"
  using assms
  by (simp add: PingHost_def SafePingService_PingHost_def analyzePingResult_def Let_def
      exit_status_text)

lemma scan_fails_on_exit_status:
  assumes "isValidIP ip"
    and "run_ping env ip
           = \<lparr>RunErr = Some ''exit status 1'', RunDuration = d, CtxErr = None, RunOutput = out\<rparr>"
    and "EnablePing config"
  shows "ScanIP env scfg ip (Some config) batchID workerID
           = Returns
               (\<lparr>IP = ip, IsUp = False, PingTime = 0, ScanStartTime = clock env,
                 ScanEndTime = clock env, Ports = [], Status = ScanStatusFailed,
                 Error = ''ping failed: ping failed: exit status 1'',
                 ScanBatchID = batchID, WorkerID = workerID\<rparr>,
                Some (PingErr (PingFailed ''exit status 1'')))"
  using assms(3) ping_exit_status_is_failure [OF assms(1,2)]
  by (simp add: ScanIP_def Let_def SetFailed_def NewScanResult_def ping_error_text_def)

text \<open>
  Claim C6 does not hold of the code.  A host from which no reply arrives is the outcome
  the claim calls \<open>100% packet loss\<close>: the ping command prints these words to its standard
  output and exits with status 1.  The program does not capture the output, and the
  error \<open>cmd.Run\<close> returns has the text \<open>exit status 1\<close>, in which \<open>analyzePingResult\<close> finds
  neither of the two phrases it looks for.  For the address 192.0.2.1 the probe therefore
  answers \<open>is_up = false\<close> with the error \<open>ping failed: exit status 1\<close>, not with a \<open>nil\<close>
  error, and \<open>ScanIP\<close> returns a failed scan.
\<close>

theorem no_reply_is_reported_as_ping_failure:
  "isValidIP ''192.0.2.1''
   \<and> contains (RunOutput (run_ping env_no_reply ''192.0.2.1'')) ''100% packet loss''
   \<and> RunErr (run_ping env_no_reply ''192.0.2.1'') = Some ''exit status 1''
   \<and> CtxErr (run_ping env_no_reply ''192.0.2.1'') = None
   \<and> PingHost env_no_reply ''192.0.2.1'' = (False, 7, Some (PingFailed ''exit status 1''))
   \<and> ping_error_text (PingFailed ''exit status 1'') = ''ping failed: exit status 1''
   \<and> ScanIP env_no_reply NewDefaultScanConfig ''192.0.2.1'' None ''batch-17-0'' ''worker-1''
       = Returns
           (\<lparr>IP = ''192.0.2.1'', IsUp = False, PingTime = 0, ScanStartTime = 1000,
             ScanEndTime = 1000, Ports = [], Status = ScanStatusFailed,
             Error = ''ping failed: ping failed: exit status 1'',
             ScanBatchID = ''batch-17-0'', WorkerID = ''worker-1''\<rparr>,
            Some (PingErr (PingFailed ''exit status 1'')))"
proof -
  have v: "isValidIP ''192.0.2.1''" by code_simp
  have o: "contains (RunOutput (run_ping env_no_reply ''192.0.2.1'')) ''100% packet loss''"
    by code_simp
  have r: "run_ping env_no_reply ''192.0.2.1''
             = \<lparr>RunErr = Some ''exit status 1'', RunDuration = 7, CtxErr = None,
                RunOutput = ''1 packets transmitted, 0 received, 100% packet loss, time 0ms''\<rparr>"
    by (simp add: env_no_reply_def no_reply_def)
  have p: "PingHost env_no_reply ''192.0.2.1'' = (False, 7, Some (PingFailed ''exit status 1''))"
    using v r by (rule ping_exit_status_is_failure)
  have t: "ping_error_text (PingFailed ''exit status 1'') = ''ping failed: exit status 1''"
    by (simp add: ping_error_text_def)
  have s: "ScanIP env_no_reply NewDefaultScanConfig ''192.0.2.1'' None ''batch-17-0'' ''worker-1''
       = Returns
           (\<lparr>IP = ''192.0.2.1'', IsUp = False, PingTime = 0, ScanStartTime = 1000,
             ScanEndTime = 1000, Ports = [], Status = ScanStatusFailed,
             Error = ''ping failed: ping failed: exit status 1'',
             ScanBatchID = ''batch-17-0'', WorkerID = ''worker-1''\<rparr>,
            Some (PingErr (PingFailed ''exit status 1'')))"
    using p by (simp add: ScanIP_def Let_def SetFailed_def NewScanResult_def ping_error_text_def
        NewDefaultScanConfig_def env_no_reply_def env_up_def)
  from v o r p t s show ?thesis by simp
qed

section \<open>Properties of the selection among probe outputs\<close>

lemma calculateResultPriority_spec: "calculateResultPriority b = spec_score b"
  by (simp add: calculateResultPriority_def spec_score_def base_score_def Let_def)

lemma spec_score_nonneg: "0 \<le> spec_score b"
  by (simp add: spec_score_def base_score_def)

lemma selectBest_foldl:
  "selectBest analyse lines st =
     foldl keep_better st
       (List.map_filter (\<lambda>line. if TrimSpace line = [] then None else analyse line) lines)"
proof (induction lines arbitrary: st)
  case Nil
  show ?case by (cases st) simp
next
  case (Cons line lines)
  obtain best hp where st: "st = (best, hp)" by (cases st) auto
  show ?case
    unfolding st
    by (simp add: Cons keep_better_def calculateResultPriority_spec Let_def
        split: option.splits)
qed

lemma foldl_keep_better:
  assumes "docs \<noteq> []"
  shows "\<exists>k < length docs.
           foldl keep_better (None, - 1) docs = (Some (docs ! k), spec_score (docs ! k))
           \<and> (\<forall>j < length docs. spec_score (docs ! j) \<le> spec_score (docs ! k))
           \<and> (\<forall>j < k. spec_score (docs ! j) < spec_score (docs ! k))"
  using assms
proof (induction docs rule: rev_induct)
  case Nil
  then show ?case by simp
next
  case (snoc b docs)
  show ?case
  proof (cases "docs = []")
    case True
    have "foldl keep_better (None, - 1) [b] = (Some b, spec_score b)"
      using spec_score_nonneg [of b] by (simp add: keep_better_def)
    with True show ?thesis by simp
  next
    case False
    from snoc.IH [OF False] obtain k where k: "k < length docs"
      and f: "foldl keep_better (None, - 1) docs = (Some (docs ! k), spec_score (docs ! k))"
      and mx: "\<forall>j < length docs. spec_score (docs ! j) \<le> spec_score (docs ! k)"
      and fst: "\<forall>j < k. spec_score (docs ! j) < spec_score (docs ! k)"
      by blast
    show ?thesis
    proof (cases "spec_score b > spec_score (docs ! k)")
      case True
      have r: "foldl keep_better (None, - 1) (docs @ [b]) = (Some b, spec_score b)"
        using f True by (simp add: keep_better_def)
      have "\<forall>j < length (docs @ [b]). spec_score ((docs @ [b]) ! j) \<le> spec_score b"
      proof (intro allI impI)
        fix j assume "j < length (docs @ [b])"
        then consider "j < length docs" | "j = length docs" by fastforce
        then show "spec_score ((docs @ [b]) ! j) \<le> spec_score b"
        proof cases
          case 1
          with mx True show ?thesis by (fastforce simp: nth_append)
        next
          case 2
          then show ?thesis by simp
        qed
      qed
      moreover have "\<forall>j < length docs. spec_score ((docs @ [b]) ! j) < spec_score b"
        using mx True by (fastforce simp: nth_append)
      ultimately show ?thesis
        using r by (intro exI [of _ "length docs"]) simp
    next
      case False
      have r: "foldl keep_better (None, - 1) (docs @ [b])
                 = (Some ((docs @ [b]) ! k), spec_score ((docs @ [b]) ! k))"
        using f False k by (simp add: keep_better_def nth_append)
      have "\<forall>j < length (docs @ [b]). spec_score ((docs @ [b]) ! j) \<le> spec_score ((docs @ [b]) ! k)"
      proof (intro allI impI)
        fix j assume "j < length (docs @ [b])"
        then consider "j < length docs" | "j = length docs" by fastforce
        then show "spec_score ((docs @ [b]) ! j) \<le> spec_score ((docs @ [b]) ! k)"
        proof cases
          case 1
          with mx k show ?thesis by (simp add: nth_append)
        next
          case 2
          with False k show ?thesis by (simp add: nth_append)
        qed
      qed
      moreover have "\<forall>j < k. spec_score ((docs @ [b]) ! j) < spec_score ((docs @ [b]) ! k)"
        using fst k by (simp add: nth_append)
      ultimately show ?thesis using r k by (intro exI [of _ k]) simp
    qed
  qed
qed

text \<open>
  Claim C8.  The priority \<open>calculateResultPriority\<close> computes for a result is the score
  base(confidence) + 20 if a version is present + 10 if the raw banner is longer than 10
  bytes + 5 if the metadata is not empty, with base 100 for the confidence label of
  probe results (\<open>zgrab2\<close>), 50 for \<open>banner\<close> and 10 for \<open>port\<close>.  When at least one
  document of the output decodes, \<open>parseZGrabOutput\<close> returns the result of a decoded
  document whose score is maximal, and every earlier document scores strictly less.
\<close>

theorem best_result_selected:
  "calculateResultPriority b = spec_score b
   \<and> (parsed_documents analyse output \<noteq> [] \<longrightarrow>
        (\<exists>k < length (parsed_documents analyse output).
           parseZGrabOutput analyse output = (parsed_documents analyse output ! k, None)
           \<and> (\<forall>j < length (parsed_documents analyse output).
                 spec_score (parsed_documents analyse output ! j)
                   \<le> spec_score (parsed_documents analyse output ! k))
           \<and> (\<forall>j < k. spec_score (parsed_documents analyse output ! j)
                          < spec_score (parsed_documents analyse output ! k))))"
proof (intro conjI impI)
  show "calculateResultPriority b = spec_score b" by (rule calculateResultPriority_spec)
next
  let ?docs = "parsed_documents analyse output"
  assume ne: "?docs \<noteq> []"
  from foldl_keep_better [OF ne] obtain k where k: "k < length ?docs"
    and f: "foldl keep_better (None, - 1) ?docs = (Some (?docs ! k), spec_score (?docs ! k))"
    and mx: "\<forall>j < length ?docs. spec_score (?docs ! j) \<le> spec_score (?docs ! k)"
    and fs: "\<forall>j < k. spec_score (?docs ! j) < spec_score (?docs ! k)"
    by blast
  have lines: "split_on (CHR 0x0A) (TrimSpace output) \<noteq> []"
    using ne by (auto simp: parsed_documents_def)
  have "selectBest analyse (split_on (CHR 0x0A) (TrimSpace output)) (None, - 1)
          = (Some (?docs ! k), spec_score (?docs ! k))"
    using f by (simp add: selectBest_foldl parsed_documents_def)
  then have "parseZGrabOutput analyse output = (?docs ! k, None)"
    using lines by (simp add: parseZGrabOutput_def Let_def)
  with k mx fs show "\<exists>k < length ?docs.
           parseZGrabOutput analyse output = (?docs ! k, None)
           \<and> (\<forall>j < length ?docs. spec_score (?docs ! j) \<le> spec_score (?docs ! k))
           \<and> (\<forall>j < k. spec_score (?docs ! j) < spec_score (?docs ! k))"
    by blast
qed


theorem best_result_selected_witness:
  "parsed_documents analyse_example output_example
     = [doc_banner, doc_probe_first, doc_probe_second]
   \<and> spec_score doc_banner = 80 \<and> spec_score doc_probe_first = 135
   \<and> spec_score doc_probe_second = 135
   \<and> parseZGrabOutput analyse_example output_example = (doc_probe_first, None)
   \<and> (\<exists>k < length (parsed_documents analyse_example output_example).
         parseZGrabOutput analyse_example output_example
           = (parsed_documents analyse_example output_example ! k, None)
         \<and> (\<forall>j < k. spec_score (parsed_documents analyse_example output_example ! j)
                        < spec_score (parsed_documents analyse_example output_example ! k)))"
proof -
  have d: "parsed_documents analyse_example output_example
             = [doc_banner, doc_probe_first, doc_probe_second]"
    by code_simp
  have s: "spec_score doc_banner = 80" "spec_score doc_probe_first = 135"
    "spec_score doc_probe_second = 135"
    by (simp_all add: spec_score_def base_score_def doc_banner_def doc_probe_first_def
        doc_probe_second_def)
  have p: "parseZGrabOutput analyse_example output_example = (doc_probe_first, None)"
    by code_simp
  have "parsed_documents analyse_example output_example \<noteq> []" unfolding d by simp
  with best_result_selected [of doc_banner analyse_example output_example]
  have "\<exists>k < length (parsed_documents analyse_example output_example).
         parseZGrabOutput analyse_example output_example
           = (parsed_documents analyse_example output_example ! k, None)
         \<and> (\<forall>j < k. spec_score (parsed_documents analyse_example output_example ! j)
                        < spec_score (parsed_documents analyse_example output_example ! k))"
    by blast
  with d s p show ?thesis by blast
qed

section \<open>Properties of the queue manager and the scan engine\<close>

lemma enrichments_append: "enrichments (xs @ ys) = enrichments xs @ enrichments ys"
  by (induction xs rule: enrichments.induct) simp_all

lemma service_analyses_append:
  "service_analyses (xs @ ys) = service_analyses xs @ service_analyses ys"
  by (induction xs rule: service_analyses.induct) simp_all

lemma scan_results_append: "scan_results (xs @ ys) = scan_results xs @ scan_results ys"
  by (induction xs rule: scan_results.induct) simp_all

lemma saveIfAvailable_silent:
  "enrichments (saveIfAvailable r x) = []" "service_analyses (saveIfAvailable r x) = []"
  "scan_results (saveIfAvailable r x) = []"
  by (simp_all add: saveIfAvailable_def)

text \<open>
  The loop over a batch: its events are those of the addresses one after the other, in
  the order of the batch, up to the first address whose handling does not return; it
  runs to its end exactly when the handling of every address returns.
\<close>

lemma handleIPs_events:
  "fst (handleIPs r env handler message ips)
     = concat (map (\<lambda>ip. events_of (handleIP r env handler message ip))
         (takeWhile (\<lambda>ip. returned (handleIP r env handler message ip)) ips))"
proof (induction ips)
  case Nil
  show ?case by simp
next
  case (Cons ip ips)
  obtain events progress where
    rest: "handleIPs r env handler message ips = (events, progress)"
    by (cases "handleIPs r env handler message ips") auto
  show ?case
    using Cons rest
    by (cases "handleIP r env handler message ip") (simp_all add: returned_def events_of_def)
qed

lemma handleIPs_progress:
  "snd (handleIPs r env handler message ips) = Returns ()
     \<longleftrightarrow> list_all (\<lambda>ip. returned (handleIP r env handler message ip)) ips"
proof (induction ips)
  case Nil
  show ?case by simp
next
  case (Cons ip ips)
  obtain events progress where
    rest: "handleIPs r env handler message ips = (events, progress)"
    by (cases "handleIPs r env handler message ips") auto
  show ?case
    using Cons rest
    by (cases "handleIP r env handler message ip") (simp_all add: returned_def)
qed

lemma handleMessage_decoded:
  assumes "unmarshal env body = Inr message" and "IPs message \<noteq> []"
    and "scanHandler r = Some handler"
  shows "fst (handleMessage r env body)
           = fst (handleIPs r env handler message (IPs message))
             @ (if snd (handleIPs r env handler message (IPs message)) = Returns ()
                then [Ack False] else [])"
    and "snd (handleIPs r env handler message (IPs message)) = Returns ()
           \<Longrightarrow> snd (handleMessage r env body) = Returns None"
    and "snd (handleIPs r env handler message (IPs message)) \<noteq> Returns ()
           \<Longrightarrow> \<not> returned (snd (handleMessage r env body))"
  using assms
  by (auto simp: handleMessage_def returned_def split: prod.splits outcome.splits)

text \<open>What \<open>ScanIP\<close> puts into every result, and that a failed scan has recorded no port.\<close>

lemma fold_AddPort_ids:
  "IP (fold AddPort ports r) = IP r" "ScanBatchID (fold AddPort ports r) = ScanBatchID r"
  by (induction ports arbitrary: r) (simp_all add: AddPort_def)

lemma ScanIP_identifies:
  assumes "ScanIP senv scfg ip config0 batchID workerID = Returns (result, err)"
  shows "IP result = ip" and "ScanBatchID result = batchID"
  using assms
  by (auto simp: ScanIP_def Let_def NewScanResult_def SetCompleted_def SetFailed_def
      fold_AddPort_ids split: prod.splits option.splits outcome.splits if_splits)

lemma ScanIP_failed_no_ports:
  assumes "ScanIP senv scfg ip config0 batchID workerID = Returns (result, Some e)"
  shows "Ports result = []"
  using assms
  by (auto simp: ScanIP_def Let_def NewScanResult_def SetCompleted_def SetFailed_def
      split: prod.splits option.splits outcome.splits if_splits)

text \<open>The events of one address, for any handler.\<close>

lemma handleIP_blank: "handleIP r env handler message [] = Returns []"
  by (simp add: handleIP_def)

lemma handleIP_scan_failed:
  assumes "ip \<noteq> []"
    and "handler ip (scanConfig r) (BatchID message) (managerWorkerID r)
           = Returns (result, Some err)"
    and "failed = \<lparr>IP = ip, IsUp = False, PingTime = 0, ScanStartTime = unix_now env,
        ScanEndTime = unix_now env, Ports = [], Status = ScanStatusFailed,
        Error = err, ScanBatchID = BatchID message, WorkerID = managerWorkerID r\<rparr>"
  shows "handleIP r env handler message ip =
     Returns
       (saveIfAvailable r failed
        @ fst (PublishScanResult env failed)
        @ fst (PublishEnrichmentMessage env ip False (BatchID message)))"
  using assms by (simp add: handleIP_def Let_def)

lemma handleIP_scan_ok:
  assumes "ip \<noteq> []"
    and "handler ip (scanConfig r) (BatchID message) (managerWorkerID r)
           = Returns (result0, None)"
    and "result = (if ScanBatchID result0 = [] then result0\<lparr>ScanBatchID := BatchID message\<rparr>
                   else result0)"
    and "snd (PublishScanResult env result) = None"
  shows "handleIP r env handler message ip =
     Returns
       (saveIfAvailable r result
        @ fst (PublishScanResult env result)
        @ fst (PublishEnrichmentMessage env (IP result) (IsUp result) (ScanBatchID result))
        @ (if GetOpenPorts result \<noteq> []
           then fst (PublishServiceAnalysis env (IP result) (GetOpenPorts result)
                       (ScanBatchID result))
           else []))"
proof -
  obtain published where p: "PublishScanResult env result = (published, None)"
    using assms(4) by (cases "PublishScanResult env result") auto
  have "handleIP r env handler message ip =
      Returns
        (saveIfAvailable r result
         @ (case PublishScanResult env result of
              (published, Some err) \<Rightarrow> published
            | (published, None) \<Rightarrow>
                published
                @ fst (PublishEnrichmentMessage env (IP result) (IsUp result)
                         (ScanBatchID result))
                @ (let openPorts = GetOpenPorts result
                   in if 0 < length openPorts
                      then fst (PublishServiceAnalysis env (IP result) openPorts
                                  (ScanBatchID result))
                      else [])))"
    using assms(1,2) unfolding assms(3) handleIP_def by (simp add: Let_def)
  then show ?thesis unfolding p by (simp add: Let_def)
qed

text \<open>On a bus that accepts every message, what is published is what was handed over.\<close>

lemma published_on_accepting_bus:
  assumes "\<forall>m. publish_result_error env m = None"
    and "\<forall>m. publish_enrichment_error env m = None"
    and "\<forall>m. publish_service_error env m = None"
  shows "snd (PublishScanResult env result) = None"
    and "enrichments (fst (PublishScanResult env result)) = []"
    and "service_analyses (fst (PublishScanResult env result)) = []"
    and "enrichments (fst (PublishEnrichmentMessage env ip isUp batchID))
           = [\<lparr>EnrIP = ip, EnrIsUp = isUp, EnrBatchID = batchID, EnrTimestamp = unix_now env\<rparr>]"
    and "service_analyses (fst (PublishEnrichmentMessage env ip isUp batchID)) = []"
    and "enrichments (fst (PublishServiceAnalysis env ip openPorts batchID)) = []"
    and "service_analyses (fst (PublishServiceAnalysis env ip openPorts batchID))
           = [\<lparr>SvcIP = ip, SvcOpenPorts = openPorts, SvcBatchID = batchID,
               SvcTimestamp = unix_now env\<rparr>]"
  using assms
  by (simp_all add: PublishScanResult_def PublishEnrichmentMessage_def
      PublishServiceAnalysis_def Let_def)

text \<open>
  One address of a batch, with the handler the service sets and a bus that accepts every
  message: the call of \<open>ScanIP\<close> that \<open>handleMessage\<close> makes for it decides the two
  records.
\<close>

lemma handleIP_wired:
  assumes "ip \<noteq> []"
    and "ScanIP senv scfg ip (Some (scanConfig r)) (BatchID message) (managerWorkerID r)
           = Returns (result, err)"
    and bus: "\<forall>m. publish_result_error env m = None"
      "\<forall>m. publish_enrichment_error env m = None"
      "\<forall>m. publish_service_error env m = None"
  shows "returned (handleIP r env (ScanIP_handler senv scfg) message ip)"
    and "enrichments (events_of (handleIP r env (ScanIP_handler senv scfg) message ip))
           = [\<lparr>EnrIP = ip, EnrIsUp = (err = None \<and> IsUp result),
               EnrBatchID = BatchID message, EnrTimestamp = unix_now env\<rparr>]"
    and "service_analyses (events_of (handleIP r env (ScanIP_handler senv scfg) message ip))
           = (if GetOpenPorts result \<noteq> []
              then [\<lparr>SvcIP = ip, SvcOpenPorts = GetOpenPorts result,
                     SvcBatchID = BatchID message, SvcTimestamp = unix_now env\<rparr>]
              else [])"
proof -
  note pub = published_on_accepting_bus [OF bus]
  have id: "IP result = ip" "ScanBatchID result = BatchID message"
    using ScanIP_identifies [OF assms(2)] by simp_all
  have same: "result = (if ScanBatchID result = [] then result\<lparr>ScanBatchID := BatchID message\<rparr>
               else result)"
    using id(2) by simp
  have h: "ScanIP_handler senv scfg ip (scanConfig r) (BatchID message) (managerWorkerID r)
             = Returns (result, map_option scan_error_text err)"
    using assms(2) by (simp add: ScanIP_handler_def)
  show "returned (handleIP r env (ScanIP_handler senv scfg) message ip)"
    using assms(1) h by (cases err) (simp_all add: handleIP_def returned_def Let_def)
  show "enrichments (events_of (handleIP r env (ScanIP_handler senv scfg) message ip))
           = [\<lparr>EnrIP = ip, EnrIsUp = (err = None \<and> IsUp result),
               EnrBatchID = BatchID message, EnrTimestamp = unix_now env\<rparr>]"
  proof (cases err)
    case None
    with h have h': "ScanIP_handler senv scfg ip (scanConfig r) (BatchID message)
        (managerWorkerID r) = Returns (result, None)" by simp
    show ?thesis
      unfolding handleIP_scan_ok [where handler = "ScanIP_handler senv scfg",
          OF assms(1) h' same pub(1)]
      using None id
      by (simp add: events_of_def enrichments_append saveIfAvailable_silent pub)
  next
    case (Some e)
    with h have h': "ScanIP_handler senv scfg ip (scanConfig r) (BatchID message)
        (managerWorkerID r) = Returns (result, Some (scan_error_text e))" by simp
    show ?thesis
      unfolding handleIP_scan_failed [where handler = "ScanIP_handler senv scfg",
          OF assms(1) h' refl]
      using Some by (simp add: events_of_def enrichments_append saveIfAvailable_silent pub)
  qed
  show "service_analyses (events_of (handleIP r env (ScanIP_handler senv scfg) message ip))
           = (if GetOpenPorts result \<noteq> []
              then [\<lparr>SvcIP = ip, SvcOpenPorts = GetOpenPorts result,
                     SvcBatchID = BatchID message, SvcTimestamp = unix_now env\<rparr>]
              else [])"
  proof (cases err)
    case None
    with h have h': "ScanIP_handler senv scfg ip (scanConfig r) (BatchID message)
        (managerWorkerID r) = Returns (result, None)" by simp
    show ?thesis
      unfolding handleIP_scan_ok [where handler = "ScanIP_handler senv scfg",
          OF assms(1) h' same pub(1)]
      using id by (simp add: events_of_def service_analyses_append saveIfAvailable_silent pub)
  next
    case (Some e)
    with h have h': "ScanIP_handler senv scfg ip (scanConfig r) (BatchID message)
        (managerWorkerID r) = Returns (result, Some (scan_error_text e))" by simp
    have np: "GetOpenPorts result = []"
      using ScanIP_failed_no_ports [of senv scfg ip "Some (scanConfig r)" "BatchID message"
          "managerWorkerID r" result e] assms(2) Some by (simp add: GetOpenPorts_def)
    show ?thesis
      unfolding handleIP_scan_failed [where handler = "ScanIP_handler senv scfg",
          OF assms(1) h' refl]
      using np by (simp add: events_of_def service_analyses_append saveIfAvailable_silent pub)
  qed
qed

text \<open>The addresses of a batch one after the other, empty entries among them.\<close>

lemma handleIPs_wired:
  assumes ret: "\<forall>ip \<in> set ips. ip \<noteq> []
             \<longrightarrow> batch_scan senv scfg r message ip = Returns (scan_of ip)"
    and bus: "\<forall>m. publish_result_error env m = None"
      "\<forall>m. publish_enrichment_error env m = None"
      "\<forall>m. publish_service_error env m = None"
  shows "snd (handleIPs r env (ScanIP_handler senv scfg) message ips) = Returns ()"
    and "enrichments (fst (handleIPs r env (ScanIP_handler senv scfg) message ips))
           = map (\<lambda>ip. \<lparr>EnrIP = ip,
                         EnrIsUp = (snd (scan_of ip) = None \<and> IsUp (fst (scan_of ip))),
                         EnrBatchID = BatchID message, EnrTimestamp = unix_now env\<rparr>)
               (filter (\<lambda>ip. ip \<noteq> []) ips)"
    and "service_analyses (fst (handleIPs r env (ScanIP_handler senv scfg) message ips))
           = concat (map (\<lambda>ip.
                 if GetOpenPorts (fst (scan_of ip)) \<noteq> []
                 then [\<lparr>SvcIP = ip, SvcOpenPorts = GetOpenPorts (fst (scan_of ip)),
                        SvcBatchID = BatchID message, SvcTimestamp = unix_now env\<rparr>]
                 else []) (filter (\<lambda>ip. ip \<noteq> []) ips))"
proof -
  let ?h = "handleIP r env (ScanIP_handler senv scfg) message"
  have one: "returned (?h ip)
      \<and> enrichments (events_of (?h ip))
          = (if ip = [] then []
             else [\<lparr>EnrIP = ip,
                    EnrIsUp = (snd (scan_of ip) = None \<and> IsUp (fst (scan_of ip))),
                    EnrBatchID = BatchID message, EnrTimestamp = unix_now env\<rparr>])
      \<and> service_analyses (events_of (?h ip))
          = (if ip = [] then []
             else if GetOpenPorts (fst (scan_of ip)) \<noteq> []
             then [\<lparr>SvcIP = ip, SvcOpenPorts = GetOpenPorts (fst (scan_of ip)),
                    SvcBatchID = BatchID message, SvcTimestamp = unix_now env\<rparr>]
             else [])"
    if "ip \<in> set ips" for ip
  proof (cases "ip = []")
    case True
    then show ?thesis by (simp add: handleIP_blank returned_def events_of_def)
  next
    case False
    with ret that have "ScanIP senv scfg ip (Some (scanConfig r)) (BatchID message)
        (managerWorkerID r) = Returns (fst (scan_of ip), snd (scan_of ip))"
      by (simp add: batch_scan_def)
    from handleIP_wired [OF False this bus] False show ?thesis by simp
  qed
  have all: "list_all (\<lambda>ip. returned (?h ip)) ips"
    using one by (simp add: list_all_iff)
  then show "snd (handleIPs r env (ScanIP_handler senv scfg) message ips) = Returns ()"
    by (simp add: handleIPs_progress)
  have tw: "takeWhile (\<lambda>ip. returned (?h ip)) ips = ips"
    using all by (simp add: list_all_iff)
  have ev: "fst (handleIPs r env (ScanIP_handler senv scfg) message ips)
          = concat (map (\<lambda>ip. events_of (?h ip)) ips)"
    by (simp add: handleIPs_events tw)
  have e: "enrichments (concat (map (\<lambda>ip. events_of (?h ip)) xs))
        = map (\<lambda>ip. \<lparr>EnrIP = ip,
                         EnrIsUp = (snd (scan_of ip) = None \<and> IsUp (fst (scan_of ip))),
                         EnrBatchID = BatchID message, EnrTimestamp = unix_now env\<rparr>)
               (filter (\<lambda>ip. ip \<noteq> []) xs)"
    if "set xs \<subseteq> set ips" for xs
    using that by (induction xs) (simp_all add: enrichments_append one)
  have s: "service_analyses (concat (map (\<lambda>ip. events_of (?h ip)) xs))
        = concat (map (\<lambda>ip.
                 if GetOpenPorts (fst (scan_of ip)) \<noteq> []
                 then [\<lparr>SvcIP = ip, SvcOpenPorts = GetOpenPorts (fst (scan_of ip)),
                        SvcBatchID = BatchID message, SvcTimestamp = unix_now env\<rparr>]
                 else []) (filter (\<lambda>ip. ip \<noteq> []) xs))"
    if "set xs \<subseteq> set ips" for xs
    using that by (induction xs) (simp_all add: service_analyses_append one)
  show "enrichments (fst (handleIPs r env (ScanIP_handler senv scfg) message ips))
           = map (\<lambda>ip. \<lparr>EnrIP = ip,
                         EnrIsUp = (snd (scan_of ip) = None \<and> IsUp (fst (scan_of ip))),
                         EnrBatchID = BatchID message, EnrTimestamp = unix_now env\<rparr>)
               (filter (\<lambda>ip. ip \<noteq> []) ips)"
    unfolding ev by (rule e) simp
  show "service_analyses (fst (handleIPs r env (ScanIP_handler senv scfg) message ips))
           = concat (map (\<lambda>ip.
                 if GetOpenPorts (fst (scan_of ip)) \<noteq> []
                 then [\<lparr>SvcIP = ip, SvcOpenPorts = GetOpenPorts (fst (scan_of ip)),
                        SvcBatchID = BatchID message, SvcTimestamp = unix_now env\<rparr>]
                 else []) (filter (\<lambda>ip. ip \<noteq> []) ips))"
    unfolding ev by (rule s) simp
qed

text \<open>
  With a positive concurrency limit the scan of every address returns.  (It also returns
  with any other limit when the port scan is not reached.)
\<close>

lemma batch_scan_returns:
  "0 < Concurrency scfg \<Longrightarrow> returned (batch_scan senv scfg r message ip)"
  by (simp add: batch_scan_def ScanIP_returns)

text \<open>
  Claim C1, as amended.  For a delivery that decodes to a batch with at least one entry,
  with the scan handler of the service set, when the scan of every entry that is not
  the empty string returns and the bus accepts every message: the enrichment records
  published are exactly one for each entry that is not the empty string, in the order of
  the batch, each \<open>{ip, is_up, batch_id, timestamp}\<close> with \<open>is_up\<close> false when the scan
  failed, and none for an entry that is the empty string; a service-analysis record is
  published for an entry exactly when its scan result has an open port; and the delivery
  is handled to its end: the last event is its acknowledgement and \<open>handleMessage\<close>
  returns no error.
\<close>

theorem enrichment_for_every_ip:
  assumes "unmarshal env body = Inr message" and "IPs message \<noteq> []"
    and "scanHandler r = Some (ScanIP_handler senv scfg)"
    and "\<forall>ip \<in> set (IPs message). ip \<noteq> []
             \<longrightarrow> batch_scan senv scfg r message ip = Returns (scan_of ip)"
    and "\<forall>m. publish_result_error env m = None"
    and "\<forall>m. publish_enrichment_error env m = None"
    and "\<forall>m. publish_service_error env m = None"
  shows "enrichments (fst (handleMessage r env body))
           = map (\<lambda>ip. \<lparr>EnrIP = ip,
                         EnrIsUp = (snd (scan_of ip) = None \<and> IsUp (fst (scan_of ip))),
                         EnrBatchID = BatchID message, EnrTimestamp = unix_now env\<rparr>)
               (filter (\<lambda>ip. ip \<noteq> []) (IPs message))
       \<and> service_analyses (fst (handleMessage r env body))
           = concat (map (\<lambda>ip.
                 if GetOpenPorts (fst (scan_of ip)) \<noteq> []
                 then [\<lparr>SvcIP = ip, SvcOpenPorts = GetOpenPorts (fst (scan_of ip)),
                        SvcBatchID = BatchID message, SvcTimestamp = unix_now env\<rparr>]
                 else []) (filter (\<lambda>ip. ip \<noteq> []) (IPs message)))
       \<and> last (fst (handleMessage r env body)) = Ack False
       \<and> snd (handleMessage r env body) = Returns None"
proof -
  note w = handleIPs_wired [OF assms(4,5,6,7)]
  note d = handleMessage_decoded [OF assms(1,2,3)]
  show ?thesis
    unfolding d(1) using w d(2) [OF w(1)]
    by (simp add: enrichments_append service_analyses_append)
qed

theorem enrichment_for_every_ip_witness:
  "unmarshal bus_ok ''mixed'' = Inr mixed_batch
   \<and> IPs mixed_batch = [''192.0.2.1'', [], ''192.0.2.2'']
   \<and> scanHandler (manager_of env_mixed) = Some (ScanIP_handler env_mixed example_config)
   \<and> batch_scan env_mixed example_config (manager_of env_mixed) mixed_batch ''192.0.2.1''
       = Returns (mixed_scan ''192.0.2.1'')
   \<and> batch_scan env_mixed example_config (manager_of env_mixed) mixed_batch ''192.0.2.2''
       = Returns (mixed_scan ''192.0.2.2'')
   \<and> enrichments (fst (handleMessage (manager_of env_mixed) bus_ok ''mixed''))
        = [\<lparr>EnrIP = ''192.0.2.1'', EnrIsUp = True, EnrBatchID = ''batch-17-0'',
            EnrTimestamp = 1700000000\<rparr>,
           \<lparr>EnrIP = ''192.0.2.2'', EnrIsUp = False, EnrBatchID = ''batch-17-0'',
            EnrTimestamp = 1700000000\<rparr>]
   \<and> map SvcIP (service_analyses (fst (handleMessage (manager_of env_mixed) bus_ok ''mixed'')))
        = [''192.0.2.1'']
   \<and> snd (handleMessage (manager_of env_mixed) bus_ok ''mixed'') = Returns None"
proof -
  have u: "unmarshal bus_ok ''mixed'' = Inr mixed_batch" by (simp add: bus_ok_def)
  have i: "IPs mixed_batch = [''192.0.2.1'', [], ''192.0.2.2'']" by (simp add: mixed_batch_def)
  have n: "IPs mixed_batch \<noteq> []" by (simp add: mixed_batch_def)
  have h: "scanHandler (manager_of env_mixed) = Some (ScanIP_handler env_mixed example_config)"
    by (simp add: manager_of_def)
  have s1: "batch_scan env_mixed example_config (manager_of env_mixed) mixed_batch ''192.0.2.1''
       = Returns (mixed_scan ''192.0.2.1'')"
    by code_simp
  have s2: "batch_scan env_mixed example_config (manager_of env_mixed) mixed_batch ''192.0.2.2''
       = Returns (mixed_scan ''192.0.2.2'')"
    by code_simp
  have p: "\<forall>ip \<in> set (IPs mixed_batch). ip \<noteq> []
             \<longrightarrow> batch_scan env_mixed example_config (manager_of env_mixed) mixed_batch ip
                   = Returns (mixed_scan ip)"
    using s1 s2 by (simp add: i)
  have b: "\<forall>m. publish_result_error bus_ok m = None"
    "\<forall>m. publish_enrichment_error bus_ok m = None"
    "\<forall>m. publish_service_error bus_ok m = None"
    by (simp_all add: bus_ok_def)
  have m: "snd (mixed_scan ''192.0.2.1'') = None" "IsUp (fst (mixed_scan ''192.0.2.1''))"
    "GetOpenPorts (fst (mixed_scan ''192.0.2.1'')) \<noteq> []"
    "snd (mixed_scan ''192.0.2.2'') \<noteq> None"
    "GetOpenPorts (fst (mixed_scan ''192.0.2.2'')) = []"
    by (simp_all add: mixed_scan_def scan_answered_def scan_unanswered_def GetOpenPorts_def)
  have c: "BatchID mixed_batch = ''batch-17-0''" "unix_now bus_ok = 1700000000"
    by (simp_all add: mixed_batch_def bus_ok_def)
  from enrichment_for_every_ip [OF u n h p b]
  have "enrichments (fst (handleMessage (manager_of env_mixed) bus_ok ''mixed''))
        = [\<lparr>EnrIP = ''192.0.2.1'', EnrIsUp = True, EnrBatchID = ''batch-17-0'',
            EnrTimestamp = 1700000000\<rparr>,
           \<lparr>EnrIP = ''192.0.2.2'', EnrIsUp = False, EnrBatchID = ''batch-17-0'',
            EnrTimestamp = 1700000000\<rparr>]"
    and "map SvcIP (service_analyses (fst (handleMessage (manager_of env_mixed) bus_ok ''mixed'')))
        = [''192.0.2.1'']"
    and "snd (handleMessage (manager_of env_mixed) bus_ok ''mixed'') = Returns None"
    by (simp_all add: i m c)
  with u i h s1 s2 show ?thesis by blast
qed

text \<open>
  The statement does not hold for every entry of a batch.  An entry that is the empty
  string is skipped: the batch of three entries below gets two enrichment records.  When
  the enrichment queue refuses the messages, no enrichment record is published for the
  two addresses of a batch, although both were scanned and published to the scan-result
  queue; when the service-analysis queue refuses them, no service-analysis record is
  published although both scan results have an open port.  With a concurrency limit of
  zero the port scan of the first address never returns, and nothing is published at
  all.  And when the scan-result queue refuses the result of a scan that succeeded, the
  loop moves on to the next address without publishing an enrichment record.
\<close>

theorem enrichment_for_every_ip_counterexample:
  "IPs mixed_batch = [''192.0.2.1'', [], ''192.0.2.2'']
   \<and> map EnrIP (enrichments (fst (handleMessage (manager_of env_mixed) bus_ok ''mixed'')))
       = [''192.0.2.1'', ''192.0.2.2'']
   \<and> enrichments (fst (handleMessage (manager_of env_up)
         (bus_ok\<lparr>publish_enrichment_error := (\<lambda>m. Some ''channel closed'')\<rparr>) ''two'')) = []
   \<and> map IP (scan_results (fst (handleMessage (manager_of env_up)
         (bus_ok\<lparr>publish_enrichment_error := (\<lambda>m. Some ''channel closed'')\<rparr>) ''two'')))
       = [''192.0.2.1'', ''192.0.2.2'']
   \<and> service_analyses (fst (handleMessage (manager_of env_up)
         (bus_ok\<lparr>publish_service_error := (\<lambda>m. Some ''channel closed'')\<rparr>) ''two'')) = []
   \<and> map (\<lambda>m. GetOpenPorts m \<noteq> []) (scan_results (fst (handleMessage (manager_of env_up)
         (bus_ok\<lparr>publish_service_error := (\<lambda>m. Some ''channel closed'')\<rparr>) ''two'')))
       = [True, True]
   \<and> handleMessage
        ((manager_of env_up)
           \<lparr>scanHandler := Some (ScanIP_handler env_up (example_config\<lparr>Concurrency := 0\<rparr>))\<rparr>)
        bus_ok ''two'' = ([], Blocks)
   \<and> enrichments (fst (handleMessage (manager_of env_up)
         (bus_ok\<lparr>publish_result_error := (\<lambda>m. Some ''channel closed'')\<rparr>) ''two'')) = []"
  by code_simp

lemma handleMessage_malformed:
  "unmarshal env body = Inl err \<Longrightarrow> handleMessage r env body = ([], Returns (Some err))"
  by (simp add: handleMessage_def)

lemma consumeLoop_malformed:
  "unmarshal env body = Inl err \<Longrightarrow> consumeLoop r env [body] = [Nack False True]"
  by (simp add: handleMessage_malformed)

text \<open>
  Claim C5 does not hold of the code.  For a delivery whose body does not decode,
  \<open>handleMessage\<close> returns the decoding error without acknowledging, and the consumer
  then rejects the delivery with requeue: the only event is \<open>Nack(false, true)\<close>, and no
  \<open>Ack\<close> occurs.  (A batch without addresses, the other kind of invalid message, is
  acknowledged by \<open>handleMessage\<close> before the same rejection follows.)
\<close>

theorem malformed_delivery_is_requeued:
  "unmarshal bus_ok ''{not json'' = Inl ''invalid character''
   \<and> handleMessage (manager_of env_up) bus_ok ''{not json''
       = ([], Returns (Some ''invalid character''))
   \<and> ConsumeIPs (manager_of env_up) bus_ok handler [''{not json'']
       = (None, [Nack False True])"
proof -
  have u: "unmarshal bus_ok ''{not json'' = Inl ''invalid character''"
    by (simp add: bus_ok_def)
  have c: "consume_error bus_ok = None" by (simp add: bus_ok_def)
  show ?thesis
    using handleMessage_malformed [OF u] consumeLoop_malformed [OF u] u c
    by (simp add: ConsumeIPs_def del: consumeLoop.simps)
qed

text \<open>
  Claim C10.  The result of \<open>ConsumeIPs\<close> is the same whatever handler function it is
  given: when the consumer starts, its events are those of the manager's own loop,
  which handles every delivery with \<open>handleMessage\<close>; for a delivery that decodes to a
  non-empty batch, with a scan handler set, these are the events of the addresses one
  after the other in the order of the batch, up to the first address whose scan does not
  return, followed by the acknowledgement when every scan returned, in which case
  \<open>handleMessage\<close> returns without error.  The events of \<open>StartScanning\<close>, which registers
  \<open>processMessage\<close>, are therefore those of the manager's loop as well, and do not depend
  on the scanner of the engine.
\<close>

theorem handler_never_invoked:
  "ConsumeIPs r env handler msgs = ConsumeIPs r env handler' msgs
   \<and> (consume_error env = None \<longrightarrow>
        ConsumeIPs r env handler msgs = (None, consumeLoop r env msgs))
   \<and> (unmarshal env body = Inr message \<and> IPs message \<noteq> [] \<and> scanHandler r = Some h \<longrightarrow>
        fst (handleMessage r env body)
          = concat (map (\<lambda>ip. events_of (handleIP r env h message ip))
              (takeWhile (\<lambda>ip. returned (handleIP r env h message ip)) (IPs message)))
            @ (if list_all (\<lambda>ip. returned (handleIP r env h message ip)) (IPs message)
               then [Ack False] else [])
        \<and> (list_all (\<lambda>ip. returned (handleIP r env h message ip)) (IPs message)
             \<longrightarrow> snd (handleMessage r env body) = Returns None)
        \<and> (\<not> list_all (\<lambda>ip. returned (handleIP r env h message ip)) (IPs message)
             \<longrightarrow> \<not> returned (snd (handleMessage r env body))))
   \<and> fst (snd (StartScanning s r env msgs))
       = (if isRunning s \<or> consume_error env \<noteq> None then [] else consumeLoop r env msgs)
   \<and> fst (snd (StartScanning s r env msgs))
       = fst (snd (StartScanning (s\<lparr>engineScanIP := scan'\<rparr>) r env msgs))"
proof (intro conjI impI)
  show "ConsumeIPs r env handler msgs = ConsumeIPs r env handler' msgs"
    by (simp add: ConsumeIPs_def)
next
  assume "consume_error env = None"
  then show "ConsumeIPs r env handler msgs = (None, consumeLoop r env msgs)"
    by (simp add: ConsumeIPs_def)
next
  assume a: "unmarshal env body = Inr message \<and> IPs message \<noteq> [] \<and> scanHandler r = Some h"
  then have d: "unmarshal env body = Inr message" "IPs message \<noteq> []" "scanHandler r = Some h"
    by simp_all
  show "fst (handleMessage r env body)
          = concat (map (\<lambda>ip. events_of (handleIP r env h message ip))
              (takeWhile (\<lambda>ip. returned (handleIP r env h message ip)) (IPs message)))
            @ (if list_all (\<lambda>ip. returned (handleIP r env h message ip)) (IPs message)
               then [Ack False] else [])"
    unfolding handleMessage_decoded(1) [OF d] handleIPs_events handleIPs_progress ..
next
  assume a: "unmarshal env body = Inr message \<and> IPs message \<noteq> [] \<and> scanHandler r = Some h"
    and l: "list_all (\<lambda>ip. returned (handleIP r env h message ip)) (IPs message)"
  from a have d: "unmarshal env body = Inr message" "IPs message \<noteq> []" "scanHandler r = Some h"
    by simp_all
  from l have "snd (handleIPs r env h message (IPs message)) = Returns ()"
    by (simp add: handleIPs_progress)
  then show "snd (handleMessage r env body) = Returns None"
    by (rule handleMessage_decoded(2) [OF d])
next
  assume a: "unmarshal env body = Inr message \<and> IPs message \<noteq> [] \<and> scanHandler r = Some h"
    and l: "\<not> list_all (\<lambda>ip. returned (handleIP r env h message ip)) (IPs message)"
  from a have d: "unmarshal env body = Inr message" "IPs message \<noteq> []" "scanHandler r = Some h"
    by simp_all
  from l have "snd (handleIPs r env h message (IPs message)) \<noteq> Returns ()"
    by (simp add: handleIPs_progress)
  then show "\<not> returned (snd (handleMessage r env body))"
    by (rule handleMessage_decoded(3) [OF d])
next
  show "fst (snd (StartScanning s r env msgs))
       = (if isRunning s \<or> consume_error env \<noteq> None then [] else consumeLoop r env msgs)"
    by (auto simp: StartScanning_def ConsumeIPs_def split: option.splits)
next
  show "fst (snd (StartScanning s r env msgs))
       = fst (snd (StartScanning (s\<lparr>engineScanIP := scan'\<rparr>) r env msgs))"
    by (auto simp: StartScanning_def ConsumeIPs_def split: option.splits)
qed

theorem handler_never_invoked_witness:
  "consume_error bus_ok = None
   \<and> ConsumeIPs (manager_of env_down) bus_ok (processMessage example_engine bus_ok) [''two'']
       = (None, consumeLoop (manager_of env_down) bus_ok [''two''])
   \<and> unmarshal bus_ok ''two'' = Inr two_ip_batch \<and> IPs two_ip_batch \<noteq> []
   \<and> scanHandler (manager_of env_down) = Some (ScanIP_handler env_down example_config)
   \<and> list_all (\<lambda>ip. returned (handleIP (manager_of env_down) bus_ok
                                 (ScanIP_handler env_down example_config) two_ip_batch ip))
        (IPs two_ip_batch)
   \<and> handleMessage (manager_of env_down) bus_ok ''two''
       = (concat (map (\<lambda>ip. events_of (handleIP (manager_of env_down) bus_ok
                                         (ScanIP_handler env_down example_config) two_ip_batch ip))
                    (IPs two_ip_batch)) @ [Ack False], Returns None)
   \<and> enrichments (fst (snd (StartScanning example_engine (manager_of env_down) bus_ok [''two''])))
       = [\<lparr>EnrIP = ''192.0.2.1'', EnrIsUp = False, EnrBatchID = ''batch-17-0'',
           EnrTimestamp = 1700000000\<rparr>,
          \<lparr>EnrIP = ''192.0.2.2'', EnrIsUp = False, EnrBatchID = ''batch-17-0'',
           EnrTimestamp = 1700000000\<rparr>]
   \<and> enrichments (fst (processMessage example_engine bus_ok two_ip_batch))
       = [\<lparr>EnrIP = ''192.0.2.1'', EnrIsUp = True, EnrBatchID = ''batch-17-0'',
           EnrTimestamp = 1700000000\<rparr>,
          \<lparr>EnrIP = ''192.0.2.2'', EnrIsUp = True, EnrBatchID = ''batch-17-0'',
           EnrTimestamp = 1700000000\<rparr>]"
proof -
  let ?h = "handleIP (manager_of env_down) bus_ok (ScanIP_handler env_down example_config)
              two_ip_batch"
  note t = handler_never_invoked
    [of "manager_of env_down" bus_ok "processMessage example_engine bus_ok" "[''two'']"
       "processMessage example_engine bus_ok" "''two''" two_ip_batch
       "ScanIP_handler env_down example_config" example_engine]
  have c: "consume_error bus_ok = None" by (simp add: bus_ok_def)
  have u: "unmarshal bus_ok ''two'' = Inr two_ip_batch" by (simp add: bus_ok_def)
  have n: "IPs two_ip_batch \<noteq> []" by (simp add: two_ip_batch_def)
  have h: "scanHandler (manager_of env_down) = Some (ScanIP_handler env_down example_config)"
    by (simp add: manager_of_def)
  have r: "isRunning example_engine = False" by (simp add: example_engine_def)
  have l: "list_all (\<lambda>ip. returned (?h ip)) (IPs two_ip_batch)" by code_simp
  then have tw: "takeWhile (\<lambda>ip. returned (?h ip)) (IPs two_ip_batch) = IPs two_ip_batch"
    by (simp add: list_all_iff)
  have 1: "ConsumeIPs (manager_of env_down) bus_ok (processMessage example_engine bus_ok) [''two'']
       = (None, consumeLoop (manager_of env_down) bus_ok [''two''])"
    using t c by blast
  have "fst (handleMessage (manager_of env_down) bus_ok ''two'')
       = concat (map (\<lambda>ip. events_of (?h ip)) (IPs two_ip_batch)) @ [Ack False]"
    and "snd (handleMessage (manager_of env_down) bus_ok ''two'') = Returns None"
    using t u n h l tw by simp_all
  then have 2: "handleMessage (manager_of env_down) bus_ok ''two''
       = (concat (map (\<lambda>ip. events_of (?h ip)) (IPs two_ip_batch)) @ [Ack False], Returns None)"
    by (simp add: prod_eq_iff)
  have 3: "fst (snd (StartScanning example_engine (manager_of env_down) bus_ok [''two'']))
             = consumeLoop (manager_of env_down) bus_ok [''two'']"
    using t c r by simp
  have 4: "enrichments (consumeLoop (manager_of env_down) bus_ok [''two''])
       = [\<lparr>EnrIP = ''192.0.2.1'', EnrIsUp = False, EnrBatchID = ''batch-17-0'',
           EnrTimestamp = 1700000000\<rparr>,
          \<lparr>EnrIP = ''192.0.2.2'', EnrIsUp = False, EnrBatchID = ''batch-17-0'',
           EnrTimestamp = 1700000000\<rparr>]"
    by code_simp
  have 5: "enrichments (fst (processMessage example_engine bus_ok two_ip_batch))
       = [\<lparr>EnrIP = ''192.0.2.1'', EnrIsUp = True, EnrBatchID = ''batch-17-0'',
           EnrTimestamp = 1700000000\<rparr>,
          \<lparr>EnrIP = ''192.0.2.2'', EnrIsUp = True, EnrBatchID = ''batch-17-0'',
           EnrTimestamp = 1700000000\<rparr>]"
    by code_simp
  from c 1 u n h l 2 3 4 5 show ?thesis by simp
qed

end
